theory Spec2Isabelle
  imports Complex_Main "HOL-Library.Char_ord" "HOL-Library.List_Lexorder" "HOL-Library.Log_Nat"
begin

section \<open>The analytics report tool \<open>get-vercel-top-pages\<close>\<close>

text \<open>
  A shallow embedding of \<^verbatim>\<open>src/tools/get-vercel-top-pages.ts\<close>.

  \<^item> A JavaScript string is a \<^typ>\<open>string\<close>: one \<^typ>\<open>char\<close> per UTF-16 code unit, for
    the code units below 256. The order of \<^typ>\<open>char\<close> is the order of the code units and
    the order of \<^typ>\<open>string\<close> the lexicographic one, which is how \<^verbatim>\<open>Array.prototype.sort\<close>
    without a comparator orders strings.
  \<^item> A JavaScript number is a binary64: a \<open>jsnumber\<close>, whose finite values are a \<open>number\<close>,
    a \<^typ>\<open>rat\<close> or negative zero. The literal of a text and a sum are rounded to the
    nearest binary64 (\<open>roundNumber\<close>). A number of the criteria is its value, a \<^typ>\<open>rat\<close>.
  \<^item> An optional property of the criteria object is an \<^typ>\<open>'a option\<close>, \<open>None\<close> for
    \<^verbatim>\<open>undefined\<close>.
  \<^item> A \<^verbatim>\<open>throw\<close>, or a rejected promise that is awaited, is the \<open>Inl\<close> of a sum.
\<close>

subsection \<open>String primitives\<close>

definition dquote :: char where
  "dquote = CHR 0x22"

definition comma :: char where
  "comma = CHR 0x2C"

definition newline :: char where
  "newline = CHR 0x0A"

text \<open>The string methods \<^verbatim>\<open>s.startsWith(p)\<close>, \<^verbatim>\<open>s.endsWith(p)\<close> and \<^verbatim>\<open>s.includes(p)\<close>; the
  prefix \<open>str_\<close> keeps them apart from the criteria's property \<^verbatim>\<open>startsWith\<close>.\<close>

fun str_startsWith :: "string \<Rightarrow> string \<Rightarrow> bool" where
  "str_startsWith s [] = True"
| "str_startsWith [] (p # ps) = False"
| "str_startsWith (c # cs) (p # ps) = (c = p \<and> str_startsWith cs ps)"

definition str_endsWith :: "string \<Rightarrow> string \<Rightarrow> bool" where
  "str_endsWith s p = str_startsWith (rev s) (rev p)"

fun str_includes :: "string \<Rightarrow> string \<Rightarrow> bool" where
  "str_includes [] p = (p = [])"
| "str_includes (c # cs) p = (str_startsWith (c # cs) p \<or> str_includes cs p)"

text \<open>\<^verbatim>\<open>parts.join(sep)\<close>.\<close>

fun joinWith :: "string \<Rightarrow> string list \<Rightarrow> string" where
  "joinWith sep [] = []"
| "joinWith sep [x] = x"
| "joinWith sep (x # y # ys) = x @ sep @ joinWith sep (y # ys)"

text \<open>
  \<^verbatim>\<open>s.trim()\<close> removes white space and line terminators at both ends; below code unit 256
  these are TAB, LF, VT, FF, CR, SP and NBSP. \<^verbatim>\<open>s.replace(/,/g, "")\<close> removes every comma.
\<close>

definition isWhiteSpace :: "char \<Rightarrow> bool" where
  "isWhiteSpace c = (c \<in> {CHR 0x09, CHR 0x0A, CHR 0x0B, CHR 0x0C, CHR 0x0D, CHR 0x20, CHR 0xA0})"

definition trim :: "string \<Rightarrow> string" where
  "trim s = rev (dropWhile isWhiteSpace (rev (dropWhile isWhiteSpace s)))"

definition removeCommas :: "string \<Rightarrow> string" where
  "removeCommas s = filter (\<lambda>c. c \<noteq> comma) s"

subsection \<open>Numbers\<close>

text \<open>
  A finite binary64 is its value, or negative zero; \<open>Num 0\<close> is the zero with the positive
  sign. A JavaScript number is a finite one, \<^verbatim>\<open>NaN\<close> or an infinity.
\<close>

datatype number = Num rat | NegZero

datatype jsnumber = Finite number | NaN | PosInfinity | NegInfinity

fun valueOf :: "number \<Rightarrow> rat" where
  "valueOf (Num v) = v"
| "valueOf NegZero = 0"

text \<open>
  The rounding of a real value to the nearest binary64, ties to the even significand. For a
  magnitude \<open>a\<close> with \<open>2 ^ e \<le> a < 2 ^ (e + 1)\<close> the binary64 values around it are the
  multiples of \<open>2 ^ (e - 52)\<close>, and of \<open>2 ^ (- 1074)\<close> below the normal range; a rounded
  magnitude of \<open>2 ^ 1024\<close> is an infinity, a rounded magnitude of 0 a zero with the sign of
  the value. \<open>bitlen n\<close> is the number of binary digits of a positive \<open>n\<close>, so \<open>floorLog2\<close>
  is the \<open>e\<close> of a positive magnitude.
\<close>

definition pow2 :: "int \<Rightarrow> rat" where
  "pow2 k = (if 0 \<le> k then 2 ^ nat k else 1 / 2 ^ nat (- k))"

definition floorLog2 :: "rat \<Rightarrow> int" where
  "floorLog2 a = (if 1 \<le> a then bitlen \<lfloor>a\<rfloor> - 1 else - bitlen (\<lceil>1 / a\<rceil> - 1))"

definition roundHalfEven :: "rat \<Rightarrow> int" where
  "roundHalfEven m =
     (let f = \<lfloor>m\<rfloor>; d = m - of_int f in
      if d < 1 / 2 then f
      else if 1 / 2 < d then f + 1
      else if even f then f else f + 1)"

definition roundNumber :: "rat \<Rightarrow> jsnumber" where
  "roundNumber x =
     (if x = 0 then Finite (Num 0)
      else
        let a = \<bar>x\<bar>;
            k = max (floorLog2 a - 52) (- 1074);
            r = of_int (roundHalfEven (a / pow2 k)) * pow2 k
        in if 2 ^ 1024 \<le> r then (if 0 < x then PosInfinity else NegInfinity)
           else if r = 0 then (if 0 < x then Finite (Num 0) else Finite NegZero)
           else Finite (Num (if 0 < x then r else - r)))"

text \<open>The unary minus of a signed literal.\<close>

fun negate :: "jsnumber \<Rightarrow> jsnumber" where
  "negate (Finite (Num v)) = (if v = 0 then Finite NegZero else Finite (Num (- v)))"
| "negate (Finite NegZero) = Finite (Num 0)"
| "negate NaN = NaN"
| "negate PosInfinity = NegInfinity"
| "negate NegInfinity = PosInfinity"

text \<open>
  \<^verbatim>\<open>Number(text)\<close> on a string, following the grammar \<^verbatim>\<open>StringNumericLiteral\<close> of the
  language: white space around the literal is ignored, the empty text is \<open>0\<close>, a binary,
  octal or hexadecimal integer has no sign, a decimal literal has an optional sign, an
  integer part, a fraction and an exponent, \<^verbatim>\<open>Infinity\<close> is a literal, and everything else
  is \<^verbatim>\<open>NaN\<close>. The result is the exact value of the literal rounded to a binary64, as
  the engines compute it (for a literal of more than 20 significant digits the language
  also allows the rounding of its first 20).
\<close>

definition isDigit :: "char \<Rightarrow> bool" where
  "isDigit c = (CHR ''0'' \<le> c \<and> c \<le> CHR ''9'')"

definition digitValue :: "char \<Rightarrow> nat" where
  "digitValue c =
     (if isDigit c then of_char c - 48
      else if CHR ''a'' \<le> c \<and> c \<le> CHR ''f'' then of_char c - 87
      else of_char c - 55)"

definition isHexDigit :: "char \<Rightarrow> bool" where
  "isHexDigit c = (isDigit c \<or> (CHR ''a'' \<le> c \<and> c \<le> CHR ''f'') \<or> (CHR ''A'' \<le> c \<and> c \<le> CHR ''F''))"

definition digitsValue :: "int \<Rightarrow> string \<Rightarrow> int" where
  "digitsValue base ds = foldl (\<lambda>acc c. base * acc + int (digitValue c)) 0 ds"

definition scaleExp :: "rat \<Rightarrow> int \<Rightarrow> rat" where
  "scaleExp m e = (if 0 \<le> e then m * 10 ^ nat e else m / 10 ^ nat (- e))"

definition signedInteger :: "string \<Rightarrow> int option" where
  "signedInteger s =
     (case s of
        [] \<Rightarrow> None
      | c # ds \<Rightarrow>
          if c = CHR ''+'' then (if ds \<noteq> [] \<and> list_all isDigit ds then Some (digitsValue 10 ds) else None)
          else if c = CHR ''-'' then (if ds \<noteq> [] \<and> list_all isDigit ds then Some (- digitsValue 10 ds) else None)
          else if list_all isDigit s then Some (digitsValue 10 s) else None)"

definition exponentPart :: "string \<Rightarrow> int option" where
  "exponentPart s =
     (case s of
        [] \<Rightarrow> Some 0
      | c # r \<Rightarrow> if c = CHR ''e'' \<or> c = CHR ''E'' then signedInteger r else None)"

definition unsignedDecimal :: "string \<Rightarrow> jsnumber" where
  "unsignedDecimal s =
     (if s = ''Infinity'' then PosInfinity
      else
        let ip = takeWhile isDigit s; r1 = dropWhile isDigit s in
        if r1 \<noteq> [] \<and> hd r1 = CHR ''.'' then
          (let fp = takeWhile isDigit (tl r1); r2 = dropWhile isDigit (tl r1) in
           if ip = [] \<and> fp = [] then NaN
           else (case exponentPart r2 of
                   None \<Rightarrow> NaN
                 | Some e \<Rightarrow>
                     roundNumber (scaleExp (of_int (digitsValue 10 ip)
                        + of_int (digitsValue 10 fp) / 10 ^ length fp) e)))
        else if ip = [] then NaN
        else (case exponentPart r1 of
                None \<Rightarrow> NaN
              | Some e \<Rightarrow> roundNumber (scaleExp (of_int (digitsValue 10 ip)) e)))"

definition nonDecimal :: "string \<Rightarrow> jsnumber option" where
  "nonDecimal s =
     (case s of
        z # x # ds \<Rightarrow>
          if z = CHR ''0'' \<and> ds \<noteq> [] then
            (if (x = CHR ''x'' \<or> x = CHR ''X'') \<and> list_all isHexDigit ds
               then Some (roundNumber (of_int (digitsValue 16 ds)))
             else if (x = CHR ''o'' \<or> x = CHR ''O'') \<and> list_all (\<lambda>c. CHR ''0'' \<le> c \<and> c \<le> CHR ''7'') ds
               then Some (roundNumber (of_int (digitsValue 8 ds)))
             else if (x = CHR ''b'' \<or> x = CHR ''B'') \<and> list_all (\<lambda>c. c = CHR ''0'' \<or> c = CHR ''1'') ds
               then Some (roundNumber (of_int (digitsValue 2 ds)))
             else None)
          else None
      | _ \<Rightarrow> None)"

definition jsNumber :: "string \<Rightarrow> jsnumber" where
  "jsNumber s =
     (let t = trim s in
      if t = [] then Finite (Num 0)
      else case nonDecimal t of
        Some v \<Rightarrow> v
      | None \<Rightarrow>
          if hd t = CHR ''+'' then unsignedDecimal (tl t)
          else if hd t = CHR ''-'' then negate (unsignedDecimal (tl t))
          else unsignedDecimal t)"

text \<open>
  \<^verbatim>\<open>toNumber\<close>: \<^verbatim>\<open>Number.isFinite(parsed) ? parsed : 0\<close>.
\<close>

definition toNumber :: "string \<Rightarrow> number" where
  "toNumber v =
     (case jsNumber (trim (removeCommas v)) of
        Finite parsed \<Rightarrow> parsed
      | _ \<Rightarrow> Num 0)"

text \<open>
  \<^verbatim>\<open>sum + value\<close> on numbers, the value being finite: the exact sum rounded, negative zero
  only for two negative zeros.
\<close>

fun plusNumber :: "jsnumber \<Rightarrow> number \<Rightarrow> jsnumber" where
  "plusNumber (Finite a) b =
     (if a = NegZero \<and> b = NegZero then Finite NegZero
      else roundNumber (valueOf a + valueOf b))"
| "plusNumber NaN b = NaN"
| "plusNumber PosInfinity b = PosInfinity"
| "plusNumber NegInfinity b = NegInfinity"

subsection \<open>The delimited-row parser\<close>

text \<open>
  \<^verbatim>\<open>parseCsvLine\<close>: the \<^verbatim>\<open>for\<close> loop over the code units of the line is the recursion
  \<open>parseCsvLoop\<close> on the rest of the line, with the loop's variables \<^verbatim>\<open>fields\<close>,
  \<^verbatim>\<open>current\<close> and \<^verbatim>\<open>inQuotes\<close> as arguments. The extra \<^verbatim>\<open>i++\<close> of an escaped quote drops
  the next code unit; \<^verbatim>\<open>line[i + 1]\<close> past the end is \<^verbatim>\<open>undefined\<close>, which is no quote.
\<close>

fun parseCsvLoop :: "string \<Rightarrow> string list \<Rightarrow> string \<Rightarrow> bool \<Rightarrow> string list" where
  "parseCsvLoop [] fields current inQuotes = fields @ [current]"
| "parseCsvLoop (c # rest) fields current inQuotes =
     (if c = dquote then
        (case rest of
           d # rest' \<Rightarrow>
             if inQuotes \<and> d = dquote
             then parseCsvLoop rest' fields (current @ [dquote]) inQuotes
             else parseCsvLoop rest fields current (\<not> inQuotes)
         | [] \<Rightarrow> parseCsvLoop rest fields current (\<not> inQuotes))
      else if c = comma \<and> \<not> inQuotes then parseCsvLoop rest (fields @ [current]) [] inQuotes
      else parseCsvLoop rest fields (current @ [c]) inQuotes)"

definition parseCsvLine :: "string \<Rightarrow> string list" where
  "parseCsvLine line = parseCsvLoop line [] [] False"

subsection \<open>Rows, criteria and the host\<close>

text \<open>
  The row type \<^verbatim>\<open>TopPageRow\<close>; its property \<^verbatim>\<open>total\<close> is the field \<open>total_visits\<close>
  (\<open>total\<close> is a constant of HOL). The two numbers of a row are finite: \<open>toNumber\<close> makes
  them.
\<close>

record TopPageRow =
  item :: string
  visitors :: number
  total_visits :: number

datatype ReportType = Pages | Referrers | Countries | Browsers | Devices | OperatingSystems

datatype SortField = ByVisitors | ByTotal

datatype SortOrder = Asc | Desc

text \<open>The argument of the tool, as its schema declares it: every property is optional.\<close>

record Criteria =
  reportType :: "ReportType option"
  fileName :: "string option"
  listReports :: "bool option"
  pageContains :: "string option"
  startsWith :: "string option"
  minVisitors :: "rat option"
  minTotal :: "rat option"
  sortBy :: "SortField option"
  sortOrder :: "SortOrder option"
  limit :: "rat option"
  includeSummary :: "bool option"

text \<open>
  What a failing operation throws: an \<^verbatim>\<open>Error\<close> object with its message, or any other
  value.
\<close>

datatype thrown = JsError string | NonError

text \<open>
  The two operations of \<^verbatim>\<open>node:fs/promises\<close> on the data directory: the listing of
  \<^verbatim>\<open>readdir(DATA_DIR)\<close> and the content of \<^verbatim>\<open>readFile(path.join(DATA_DIR, name), "utf8")\<close>,
  either of which may reject.
\<close>

record FileSystem =
  readdir :: "thrown + string list"
  readFile :: "string \<Rightarrow> thrown + string"

subsection \<open>The report catalog\<close>

definition squote :: char where
  "squote = CHR 0x27"

definition DEFAULT_FILE :: string where
  "DEFAULT_FILE = ''Top Pages - Nov 13 '' @ [squote] @ ''25, 11pm - Feb 13 '' @ [squote] @ ''26.csv''"

definition REPORT_LABELS :: "string list" where
  "REPORT_LABELS = [''Top Pages'', ''Top Referrers'', ''Top Countries'', ''Top Browsers'',
     ''Top Devices'', ''Top Operating Systems'']"

text \<open>
  \<^verbatim>\<open>path.basename\<close> of a POSIX path: slashes at the end are dropped, then everything up to
  the last slash.
\<close>

definition basename :: "string \<Rightarrow> string" where
  "basename p =
     rev (takeWhile (\<lambda>c. c \<noteq> CHR ''/'') (dropWhile (\<lambda>c. c = CHR ''/'') (rev p)))"

text \<open>\<^verbatim>\<open>files.filter((f) => f.endsWith(".csv")).sort()\<close>: the sort is by code units.\<close>

definition csvFilesOf :: "string list \<Rightarrow> string list" where
  "csvFilesOf files = sort (filter (\<lambda>f. str_endsWith f ''.csv'') files)"

definition resolveFileName :: "FileSystem \<Rightarrow> string option \<Rightarrow> thrown + string" where
  "resolveFileName fs requested =
     (case readdir fs of
        Inl e \<Rightarrow> Inl e
      | Inr files \<Rightarrow>
          let csvFiles = csvFilesOf files in
          if csvFiles = [] then Inl (JsError ''No CSV files found in src/lib/vercel'')
          else if requested \<noteq> None \<and> requested \<noteq> Some [] then
            (let clean = basename (case requested of Some r \<Rightarrow> r | None \<Rightarrow> []) in
             if \<not> str_endsWith clean ''.csv'' then Inl (JsError ''fileName must be a .csv file'')
             else if clean \<notin> set csvFiles then Inl (JsError (''CSV file not found: '' @ clean))
             else Inr clean)
          else Inr (if DEFAULT_FILE \<in> set csvFiles then DEFAULT_FILE else last csvFiles))"

fun toReportLabel :: "ReportType \<Rightarrow> string" where
  "toReportLabel Pages = ''Top Pages''"
| "toReportLabel Referrers = ''Top Referrers''"
| "toReportLabel Countries = ''Top Countries''"
| "toReportLabel Browsers = ''Top Browsers''"
| "toReportLabel Devices = ''Top Devices''"
| "toReportLabel OperatingSystems = ''Top Operating Systems''"

text \<open>The string of a report type, as the template of the error message prints it.\<close>

fun reportTypeName :: "ReportType \<Rightarrow> string" where
  "reportTypeName Pages = ''pages''"
| "reportTypeName Referrers = ''referrers''"
| "reportTypeName Countries = ''countries''"
| "reportTypeName Browsers = ''browsers''"
| "reportTypeName Devices = ''devices''"
| "reportTypeName OperatingSystems = ''operating-systems''"

definition inferReportLabel :: "string \<Rightarrow> string" where
  "inferReportLabel file =
     (case filter (\<lambda>label. str_startsWith file (label @ '' - '')) REPORT_LABELS of
        label # _ \<Rightarrow> label
      | [] \<Rightarrow> ''Unknown'')"

text \<open>
  \<^verbatim>\<open>extractDateRange\<close>. The first replacement removes a final \<^verbatim>\<open>.csv\<close> in any case of
  the letters. The second removes a match of \<^verbatim>\<open>/^Top [^-]+ - /\<close>: after \<^verbatim>\<open>Top \<close> the class
  \<^verbatim>\<open>[^-]+\<close> can only stop one code unit before the first hyphen, on a space that the
  pattern's \<^verbatim>\<open> - \<close> takes, and has to keep one code unit of its own; so the run \<open>run\<close> of
  code units before the first hyphen has at least two, it ends with a space, and the
  hyphen is followed by a space.
\<close>

definition stripCsvSuffix :: "string \<Rightarrow> string" where
  "stripCsvSuffix s =
     (case rev s of
        v # s' # c # d # r \<Rightarrow>
          if (v = CHR ''v'' \<or> v = CHR ''V'') \<and> (s' = CHR ''s'' \<or> s' = CHR ''S'')
             \<and> (c = CHR ''c'' \<or> c = CHR ''C'') \<and> d = CHR ''.''
          then rev r else s
      | _ \<Rightarrow> s)"

definition stripLabelPrefix :: "string \<Rightarrow> string" where
  "stripLabelPrefix s =
     (if str_startsWith s ''Top '' then
        (let rest = drop 4 s;
             run = takeWhile (\<lambda>c. c \<noteq> CHR ''-'') rest;
             after = dropWhile (\<lambda>c. c \<noteq> CHR ''-'') rest
         in if 2 \<le> length run \<and> last run = CHR '' '' \<and> str_startsWith after ''- ''
            then drop 2 after else s)
      else s)"

definition extractDateRange :: "string \<Rightarrow> string" where
  "extractDateRange file = stripLabelPrefix (stripCsvSuffix file)"

definition resolveFileNameByType :: "FileSystem \<Rightarrow> ReportType \<Rightarrow> thrown + string" where
  "resolveFileNameByType fs rt =
     (case readdir fs of
        Inl e \<Rightarrow> Inl e
      | Inr files \<Rightarrow>
          let csvFiles = csvFilesOf files;
              label = toReportLabel rt;
              matches = filter (\<lambda>f. str_startsWith f (label @ '' - '')) csvFiles
          in if matches = []
             then Inl (JsError (''No CSV found for reportType '' @ [squote] @ reportTypeName rt @ [squote]))
             else Inr (last matches))"

definition listAvailableReports :: "FileSystem \<Rightarrow> thrown + string list" where
  "listAvailableReports fs =
     (case readdir fs of
        Inl e \<Rightarrow> Inl e
      | Inr files \<Rightarrow>
          Inr (map (\<lambda>file. inferReportLabel file @ '' | '' @ extractDateRange file @ '' | '' @ file)
                 (csvFilesOf files)))"

subsection \<open>The row loader\<close>

text \<open>
  \<^verbatim>\<open>content.split(/\r?\n/)\<close>: a line ends at a line feed, and a carriage return just before
  the line feed belongs to the separator.
\<close>

fun splitLines :: "string \<Rightarrow> string \<Rightarrow> string list" where
  "splitLines [] current = [current]"
| "splitLines (c # rest) current =
     (if c = newline then current # splitLines rest []
      else (case rest of
              d # rest' \<Rightarrow>
                if c = CHR 0x0D \<and> d = newline then current # splitLines rest' []
                else splitLines rest (current @ [c])
            | [] \<Rightarrow> splitLines rest (current @ [c])))"

text \<open>
  The destructuring \<^verbatim>\<open>const [pageRaw, visitorsRaw, totalRaw] = parseCsvLine(line)\<close>: a
  position past the end of the array is \<^verbatim>\<open>undefined\<close>. \<^verbatim>\<open>raw || "0"\<close> takes \<^verbatim>\<open>"0"\<close> for
  \<^verbatim>\<open>undefined\<close> and for the empty string.
\<close>

definition fieldAt :: "string list \<Rightarrow> nat \<Rightarrow> string option" where
  "fieldAt cells i = (if i < length cells then Some (cells ! i) else None)"

definition orZero :: "string option \<Rightarrow> string" where
  "orZero raw = (case raw of None \<Rightarrow> ''0'' | Some r \<Rightarrow> if r = [] then ''0'' else r)"

definition rowOfLine :: "string \<Rightarrow> TopPageRow option" where
  "rowOfLine line =
     (let cells = parseCsvLine line in
      case fieldAt cells 0 of
        None \<Rightarrow> None
      | Some pageRaw \<Rightarrow>
          if pageRaw = [] then None
          else Some \<lparr> item = pageRaw,
                      visitors = toNumber (orZero (fieldAt cells 1)),
                      total_visits = toNumber (orZero (fieldAt cells 2)) \<rparr>)"

definition rowsOfContent :: "string \<Rightarrow> TopPageRow list" where
  "rowsOfContent content =
     (let lines = filter (\<lambda>line. line \<noteq> []) (map trim (splitLines content [])) in
      if length lines \<le> 1 then []
      else List.map_filter rowOfLine (tl lines))"

definition loadRows :: "FileSystem \<Rightarrow> string \<Rightarrow> thrown + TopPageRow list" where
  "loadRows fs name =
     (case readFile fs name of
        Inl e \<Rightarrow> Inl e
      | Inr content \<Rightarrow> Inr (rowsOfContent content))"

subsection \<open>The query pipeline\<close>

text \<open>
  \<^verbatim>\<open>s.toLowerCase()\<close> on the code units below 256: the letters \<^verbatim>\<open>A\<close> to \<^verbatim>\<open>Z\<close> and the
  capital letters from \<open>0xC0\<close> to \<open>0xDE\<close>, the multiplication sign \<open>0xD7\<close> apart, move up
  by 32. Bit 5 of these code units is clear, so adding 32 sets it.
\<close>

definition lowerChar :: "char \<Rightarrow> char" where
  "lowerChar c =
     (if (CHR ''A'' \<le> c \<and> c \<le> CHR ''Z'') \<or> (CHR 0xC0 \<le> c \<and> c \<le> CHR 0xDE \<and> c \<noteq> CHR 0xD7)
      then (case c of Char b0 b1 b2 b3 b4 b5 b6 b7 \<Rightarrow> Char b0 b1 b2 b3 b4 True b6 b7)
      else c)"

definition toLowerCase :: "string \<Rightarrow> string" where
  "toLowerCase s = map lowerChar s"

text \<open>
  The predicate of \<^verbatim>\<open>rows.filter\<close>, one \<^verbatim>\<open>if (...) return false\<close> after the other. A text
  filter is tested for truthiness, a threshold for \<^verbatim>\<open>!== undefined\<close>.
\<close>

definition truthy :: "string option \<Rightarrow> bool" where
  "truthy v = (case v of None \<Rightarrow> False | Some s \<Rightarrow> s \<noteq> [])"

definition textOf :: "string option \<Rightarrow> string" where
  "textOf v = (case v of None \<Rightarrow> [] | Some s \<Rightarrow> s)"

definition keepRow :: "Criteria \<Rightarrow> TopPageRow \<Rightarrow> bool" where
  "keepRow c row =
     (if truthy (pageContains c)
         \<and> \<not> str_includes (toLowerCase (item row)) (toLowerCase (textOf (pageContains c))) then False
      else if truthy (startsWith c) \<and> \<not> str_startsWith (item row) (textOf (startsWith c)) then False
      else if (case minVisitors c of None \<Rightarrow> False | Some m \<Rightarrow> valueOf (visitors row) < m) then False
      else if (case minTotal c of None \<Rightarrow> False | Some m \<Rightarrow> valueOf (total_visits row) < m) then False
      else True)"

definition filterRows :: "Criteria \<Rightarrow> TopPageRow list \<Rightarrow> TopPageRow list" where
  "filterRows c rows = filter (keepRow c) rows"

text \<open>
  \<^verbatim>\<open>Array.prototype.sort\<close> with a comparator is a stable sort: on a comparator that is a
  total preorder, as a numeric difference is, its result is the one stable arrangement,
  which insertion from the right computes. An element goes before the first one that it
  does not compare above. The sort reads the sign of the comparator's result only, and
  the difference of two finite binary64 values has the sign of their exact difference,
  which is what \<open>comparator\<close> returns.
\<close>

fun insertBy :: "('a \<Rightarrow> 'a \<Rightarrow> rat) \<Rightarrow> 'a \<Rightarrow> 'a list \<Rightarrow> 'a list" where
  "insertBy cmp x [] = [x]"
| "insertBy cmp x (y # ys) = (if cmp x y \<le> 0 then x # y # ys else y # insertBy cmp x ys)"

definition sortWith :: "('a \<Rightarrow> 'a \<Rightarrow> rat) \<Rightarrow> 'a list \<Rightarrow> 'a list" where
  "sortWith cmp xs = foldr (insertBy cmp) xs []"

definition sortField :: "Criteria \<Rightarrow> SortField" where
  "sortField c = (case sortBy c of None \<Rightarrow> ByVisitors | Some b \<Rightarrow> b)"

definition sortDirection :: "Criteria \<Rightarrow> SortOrder" where
  "sortDirection c = (case sortOrder c of None \<Rightarrow> Desc | Some ord \<Rightarrow> ord)"

definition comparator :: "Criteria \<Rightarrow> TopPageRow \<Rightarrow> TopPageRow \<Rightarrow> rat" where
  "comparator c a b =
     (let diff = (if sortField c = ByVisitors then valueOf (visitors a) - valueOf (visitors b)
                  else valueOf (total_visits a) - valueOf (total_visits b))
      in if sortDirection c = Asc then diff else - diff)"

definition sortRows :: "Criteria \<Rightarrow> TopPageRow list \<Rightarrow> TopPageRow list" where
  "sortRows c filtered = sortWith (comparator c) filtered"

text \<open>
  \<^verbatim>\<open>Math.max(1, Math.min(limit || 20, 200))\<close>: \<^verbatim>\<open>limit || 20\<close> is 20 when the limit is
  \<^verbatim>\<open>undefined\<close> and when it is 0. \<^verbatim>\<open>filtered.slice(0, maxRows)\<close> takes the integer part
  of \<^verbatim>\<open>maxRows\<close>, which is at least 1.
\<close>

definition maxRows :: "Criteria \<Rightarrow> rat" where
  "maxRows c =
     max 1 (min (case limit c of None \<Rightarrow> 20 | Some l \<Rightarrow> if l = 0 then 20 else l) 200)"

definition topRows :: "Criteria \<Rightarrow> TopPageRow list \<Rightarrow> TopPageRow list" where
  "topRows c rows = take (nat \<lfloor>maxRows c\<rfloor>) (sortRows c (filterRows c rows))"

subsection \<open>The report\<close>

text \<open>A count or a rank in a template string: the decimal digits of a natural number.\<close>

definition digitChar :: "nat \<Rightarrow> char" where
  "digitChar d = ''0123456789'' ! d"

function showNat :: "nat \<Rightarrow> string" where
  "showNat n =
     (if n < 10 then [digitChar n]
      else showNat (n div 10) @ [digitChar (n mod 10)])"
  by pat_completeness auto
termination
  by (relation "measure id") auto

declare showNat.simps [simp del]

definition sortFieldName :: "SortField \<Rightarrow> string" where
  "sortFieldName b = (case b of ByVisitors \<Rightarrow> ''visitors'' | ByTotal \<Rightarrow> ''total'')"

definition sortOrderName :: "SortOrder \<Rightarrow> string" where
  "sortOrderName ord = (case ord of Asc \<Rightarrow> ''asc'' | Desc \<Rightarrow> ''desc'')"

text \<open>
  The rest of the \<^verbatim>\<open>try\<close> block once the rows are loaded. \<^verbatim>\<open>toLocaleString\<close> depends on
  the locale of the host and is the parameter \<open>fmt\<close>. The two totals are sums of binary64
  values, each addition rounded, from the zero with which \<^verbatim>\<open>reduce\<close> starts.
\<close>

definition rankedLines :: "(jsnumber \<Rightarrow> string) \<Rightarrow> TopPageRow list \<Rightarrow> string list" where
  "rankedLines fmt top_rows =
     map (\<lambda>(index, row). showNat (index + 1) @ ''. '' @ item row @ '' | Visitors: ''
            @ fmt (Finite (visitors row)) @ '' | Total: '' @ fmt (Finite (total_visits row)))
       (zip [0 ..< length top_rows] top_rows)"

definition report ::
  "(jsnumber \<Rightarrow> string) \<Rightarrow> Criteria \<Rightarrow> string \<Rightarrow> TopPageRow list \<Rightarrow> string" where
  "report fmt c selectedFile rows =
     (let initialCount = length rows;
          filtered = sortRows c (filterRows c rows);
          top_rows = take (nat \<lfloor>maxRows c\<rfloor>) filtered;
          reportLabel = inferReportLabel selectedFile;
          dateRange = extractDateRange selectedFile
      in if top_rows = [] then
           ''No rows match the current filters.'' @ [newline, newline]
           @ ''Report: '' @ reportLabel @ [newline]
           @ ''Period: '' @ dateRange @ [newline]
           @ ''File: '' @ selectedFile @ [newline]
           @ ''Rows scanned: '' @ showNat initialCount
         else
           let withSummary = (includeSummary c \<noteq> Some False);
               totalVisitors = foldl (\<lambda>sum row. plusNumber sum (visitors row)) (Finite (Num 0)) filtered;
               totalVisits = foldl (\<lambda>sum row. plusNumber sum (total_visits row)) (Finite (Num 0)) filtered
           in joinWith [newline]
                ((if withSummary then
                    [''Vercel Analytics Report'',
                     ''Report type: '' @ reportLabel,
                     ''Period: '' @ dateRange,
                     ''File: '' @ selectedFile,
                     ''Rows scanned: '' @ showNat initialCount,
                     ''Rows matched: '' @ showNat (length filtered),
                     ''Total visitors (matched): '' @ fmt totalVisitors,
                     ''Total visits (matched): '' @ fmt totalVisits,
                     []]
                  else [])
                 @ [''Top '' @ showNat (length top_rows) @ '' rows by '' @ sortFieldName (sortField c)
                      @ '' ('' @ sortOrderName (sortDirection c) @ '')'',
                    []]
                 @ rankedLines fmt top_rows))"

subsection \<open>The tool\<close>

text \<open>
  The file that the tool selects: \<^verbatim>\<open>fileName ? resolveFileName(fileName) :
  resolveFileNameByType(reportType || "pages")\<close>.
\<close>

definition selectFile :: "FileSystem \<Rightarrow> Criteria \<Rightarrow> thrown + string" where
  "selectFile fs c =
     (if truthy (fileName c) then resolveFileName fs (fileName c)
      else resolveFileNameByType fs (case reportType c of None \<Rightarrow> Pages | Some t \<Rightarrow> t))"

text \<open>The \<^verbatim>\<open>try\<close> block: \<open>Inl\<close> is what it throws, \<open>Inr\<close> what it returns.\<close>

definition tryBlock ::
  "(jsnumber \<Rightarrow> string) \<Rightarrow> FileSystem \<Rightarrow> Criteria \<Rightarrow> thrown + string" where
  "tryBlock fmt fs c =
     (if listReports c = Some True then
        (case listAvailableReports fs of
           Inl e \<Rightarrow> Inl e
         | Inr reports \<Rightarrow>
             if reports = [] then Inr ''No CSV reports found in src/lib/vercel.''
             else Inr (joinWith [newline]
                    ([''Available Vercel CSV reports:'', []]
                     @ map (\<lambda>(i, r). showNat (i + 1) @ ''. '' @ r) (zip [0 ..< length reports] reports))))
      else
        (case selectFile fs c of
           Inl e \<Rightarrow> Inl e
         | Inr selectedFile \<Rightarrow>
             (case loadRows fs selectedFile of
                Inl e \<Rightarrow> Inl e
              | Inr rows \<Rightarrow> Inr (report fmt c selectedFile rows))))"

text \<open>The \<^verbatim>\<open>catch\<close> clause: \<^verbatim>\<open>error instanceof Error ? error.message : "Unknown error"\<close>.\<close>

definition errorText :: "thrown \<Rightarrow> string" where
  "errorText e = (case e of JsError message \<Rightarrow> message | NonError \<Rightarrow> ''Unknown error'')"

definition getVercelTopPages ::
  "(jsnumber \<Rightarrow> string) \<Rightarrow> FileSystem \<Rightarrow> Criteria \<Rightarrow> string" where
  "getVercelTopPages fmt fs c =
     (case tryBlock fmt fs c of
        Inr result \<Rightarrow> result
      | Inl e \<Rightarrow> ''Error reading Vercel analytics CSV: '' @ errorText e)"

subsection \<open>The line builder of the round trip\<close>

text \<open>
  Modelled from the spec: the source has no writer of delimited lines. The round-trip
  property of the specification builds its line by joining the fields with commas, a
  field that contains a comma or a quote being wrapped in quotes with its quotes doubled.
\<close>

definition needsQuoting :: "string \<Rightarrow> bool" where
  "needsQuoting f = (comma \<in> set f \<or> dquote \<in> set f)"

definition doubleQuotes :: "string \<Rightarrow> string" where
  "doubleQuotes f = concat (map (\<lambda>c. if c = dquote then [dquote, dquote] else [c]) f)"

definition encodeField :: "string \<Rightarrow> string" where
  "encodeField f = (if needsQuoting f then [dquote] @ doubleQuotes f @ [dquote] else f)"

definition buildLine :: "string list \<Rightarrow> string" where
  "buildLine flds = joinWith [comma] (map encodeField flds)"

subsection \<open>Notions of the properties and concrete inputs\<close>

text \<open>The number that the comparator of the sort takes from a row.\<close>

definition sortKey :: "Criteria \<Rightarrow> TopPageRow \<Rightarrow> rat" where
  "sortKey c row =
     (if sortField c = ByVisitors then valueOf (visitors row) else valueOf (total_visits row))"

text \<open>
  \<open>addsFilters c c'\<close>: the criteria \<open>c'\<close> have every filter of \<open>c\<close> unchanged, and
  filters where \<open>c\<close> has none.
\<close>

definition addsFilters :: "Criteria \<Rightarrow> Criteria \<Rightarrow> bool" where
  "addsFilters c c' =
     ((pageContains c = None \<or> pageContains c' = pageContains c)
      \<and> (startsWith c = None \<or> startsWith c' = startsWith c)
      \<and> (minVisitors c = None \<or> minVisitors c' = minVisitors c)
      \<and> (minTotal c = None \<or> minTotal c' = minTotal c))"

text \<open>The call with no criteria, three rows, a directory, and a number format without grouping.\<close>

definition noCriteria :: Criteria where
  "noCriteria = \<lparr> reportType = None, fileName = None, listReports = None, pageContains = None,
     startsWith = None, minVisitors = None, minTotal = None, sortBy = None, sortOrder = None,
     limit = None, includeSummary = None \<rparr>"

definition exampleRows :: "TopPageRow list" where
  "exampleRows =
     [\<lparr> item = ''/home'', visitors = Num 50, total_visits = Num 70 \<rparr>,
      \<lparr> item = ''/About'', visitors = Num 100, total_visits = Num 60 \<rparr>,
      \<lparr> item = ''/cars'', visitors = Num 50, total_visits = Num 90 \<rparr>]"

definition listingOnly :: "string list \<Rightarrow> FileSystem" where
  "listingOnly files = \<lparr> readdir = Inr files, readFile = (\<lambda>name. Inl (JsError ''ENOENT'')) \<rparr>"

definition noPagesError :: thrown where
  "noPagesError = JsError (''No CSV found for reportType '' @ [squote] @ ''pages'' @ [squote])"

definition plainDigits :: "jsnumber \<Rightarrow> string" where
  "plainDigits v = (case v of Finite n \<Rightarrow> showNat (nat \<lfloor>valueOf n\<rfloor>) | _ \<Rightarrow> [])"

text \<open>
  The line that the \<^verbatim>\<open>catch\<close> clause returns for a thrown value, and the errors that the
  code itself throws.
\<close>

definition errorLine :: "thrown \<Rightarrow> string" where
  "errorLine e = ''Error reading Vercel analytics CSV: '' @ errorText e"

definition thrownByCode :: "thrown \<Rightarrow> bool" where
  "thrownByCode e =
     (e = JsError ''No CSV files found in src/lib/vercel''
      \<or> e = JsError ''fileName must be a .csv file''
      \<or> (\<exists>clean. e = JsError (''CSV file not found: '' @ clean))
      \<or> (\<exists>t. e = JsError (''No CSV found for reportType '' @ [squote] @ reportTypeName t @ [squote])))"

definition brokenDirectory :: FileSystem where
  "brokenDirectory = \<lparr> readdir = Inl NonError, readFile = (\<lambda>name. Inl NonError) \<rparr>"

text \<open>
  The scenario of the specification: one report file, a header and two data lines, the
  second with a quoted total; the rows and the report expected for it.
\<close>

definition scenarioFile :: string where
  "scenarioFile = ''Top Pages - Jan 1, 26.csv''"

definition aboutLine :: string where
  "aboutLine = ''/about,50,'' @ [dquote] @ ''1,200'' @ [dquote]"

definition scenarioContent :: string where
  "scenarioContent =
     ''item,visitors,total'' @ [newline] @ ''/home,100,150'' @ [newline] @ aboutLine"

definition scenarioRows :: "TopPageRow list" where
  "scenarioRows =
     [\<lparr> item = ''/home'', visitors = Num 100, total_visits = Num 150 \<rparr>,
      \<lparr> item = ''/about'', visitors = Num 50, total_visits = Num 1200 \<rparr>]"

definition scenarioReport :: "(jsnumber \<Rightarrow> string) \<Rightarrow> string" where
  "scenarioReport fmt =
     joinWith [newline]
       [''Vercel Analytics Report'',
        ''Report type: Top Pages'',
        ''Period: Jan 1, 26'',
        ''File: Top Pages - Jan 1, 26.csv'',
        ''Rows scanned: 2'',
        ''Rows matched: 2'',
        ''Total visitors (matched): '' @ fmt (Finite (Num 150)),
        ''Total visits (matched): '' @ fmt (Finite (Num 1350)),
        [],
        ''Top 2 rows by visitors (desc)'',
        [],
        ''1. /home | Visitors: '' @ fmt (Finite (Num 100)) @ '' | Total: '' @ fmt (Finite (Num 150)),
        ''2. /about | Visitors: '' @ fmt (Finite (Num 50)) @ '' | Total: '' @ fmt (Finite (Num 1200))]"

definition scenarioFs :: FileSystem where
  "scenarioFs = \<lparr> readdir = Inr [scenarioFile],
       readFile = (\<lambda>name. if name = scenarioFile then Inr scenarioContent else Inl (JsError ''ENOENT'')) \<rparr>"

section \<open>Properties\<close>

subsection \<open>The parser on a built line\<close>

lemma dquote_neq_comma: "dquote \<noteq> comma"
  by (simp add: dquote_def comma_def)

lemma parseCsvLoop_plain:
  "comma \<notin> set f \<Longrightarrow> dquote \<notin> set f \<Longrightarrow>
   parseCsvLoop (f @ rest) flds current False = parseCsvLoop rest flds (current @ f) False"
  by (induction f arbitrary: current) auto

lemma doubleQuotes_Cons:
  "doubleQuotes (c # f) = (if c = dquote then [dquote, dquote] else [c]) @ doubleQuotes f"
  by (simp add: doubleQuotes_def)

lemma parseCsvLoop_quoted:
  "rest = [] \<or> hd rest \<noteq> dquote \<Longrightarrow>
   parseCsvLoop (doubleQuotes f @ dquote # rest) flds current True
     = parseCsvLoop rest flds (current @ f) False"
proof (induction f arbitrary: current)
  case Nil
  then show ?case
    by (cases rest) (auto simp: doubleQuotes_def)
next
  case (Cons c f)
  show ?case
  proof (cases "c = dquote")
    case True
    then show ?thesis
      using Cons.IH [OF Cons.prems, of "current @ [dquote]"] by (simp add: doubleQuotes_Cons)
  next
    case False
    then show ?thesis
      using Cons.IH [OF Cons.prems, of "current @ [c]"] by (simp add: doubleQuotes_Cons)
  qed
qed

lemma parseCsvLoop_encodeField:
  assumes "rest = [] \<or> hd rest = comma"
  shows "parseCsvLoop (encodeField f @ rest) flds current False
           = parseCsvLoop rest flds (current @ f) False"
proof (cases "needsQuoting f")
  case True
  from assms have r: "rest = [] \<or> hd rest \<noteq> dquote"
    using dquote_neq_comma by auto
  have "parseCsvLoop (encodeField f @ rest) flds current False
          = parseCsvLoop (doubleQuotes f @ dquote # rest) flds current True"
    using True by (cases "doubleQuotes f @ dquote # rest") (auto simp: encodeField_def)
  then show ?thesis
    using parseCsvLoop_quoted [OF r] by simp
next
  case False
  then show ?thesis
    by (simp add: encodeField_def needsQuoting_def parseCsvLoop_plain)
qed

lemma parseCsvLoop_buildLine:
  "parseCsvLoop (buildLine (f # rest_fields)) flds [] False = flds @ f # rest_fields"
proof (induction rest_fields arbitrary: f flds)
  case Nil
  show ?case
    using parseCsvLoop_encodeField [of "[]" f flds "[]"] by (simp add: buildLine_def)
next
  case (Cons g gs)
  have "buildLine (f # g # gs) = encodeField f @ comma # buildLine (g # gs)"
    by (simp add: buildLine_def)
  then have "parseCsvLoop (buildLine (f # g # gs)) flds [] False
               = parseCsvLoop (comma # buildLine (g # gs)) flds f False"
    using parseCsvLoop_encodeField [of "comma # buildLine (g # gs)" f flds "[]"] by simp
  also have "\<dots> = parseCsvLoop (buildLine (g # gs)) (flds @ [f]) [] False"
    using dquote_neq_comma by simp
  also have "\<dots> = (flds @ [f]) @ g # gs"
    by (rule Cons.IH)
  finally show ?case by simp
qed

text \<open>
  C6, as the code has it. The parser emits the last field at the end of the line even when
  nothing was read, so the line built from no field at all, the empty line, parses to one
  empty field. For every list of at least one field, parsing the built line gives the
  fields back.
\<close>

theorem parseCsvLine_roundtrip:
  "flds \<noteq> [] \<Longrightarrow> parseCsvLine (buildLine flds) = flds"
  by (cases flds) (simp_all add: parseCsvLine_def parseCsvLoop_buildLine)

theorem parseCsvLine_roundtrip_witness:
  "[''a,b'', [dquote], [], ''x''] \<noteq> []
   \<and> parseCsvLine (buildLine [''a,b'', [dquote], [], ''x'']) = [''a,b'', [dquote], [], ''x'']"
  using parseCsvLine_roundtrip [of "[''a,b'', [dquote], [], ''x'']"] by simp

text \<open>
  C6, as the specification states it, fails for the list of no fields: the built line is
  empty and the parser returns one field, the empty string.
\<close>

theorem parseCsvLine_roundtrip_counterexample:
  "parseCsvLine (buildLine []) = [[]] \<and> parseCsvLine (buildLine []) \<noteq> []"
  by (simp add: parseCsvLine_def buildLine_def)

subsection \<open>Sorting\<close>

lemma insertBy_insort_key:
  "(\<And>a b. (cmp a b \<le> 0) = (f a \<le> f b)) \<Longrightarrow> insertBy cmp x ys = insort_key f x ys"
  by (induction ys) auto

lemma sortWith_sort_key:
  assumes "\<And>a b. (cmp a b \<le> 0) = (f a \<le> f b)"
  shows "sortWith cmp xs = sort_key f xs"
proof -
  have "insertBy cmp = insort_key f"
    using insertBy_insort_key [OF assms] by (intro ext)
  then show ?thesis
    by (simp add: sortWith_def sort_key_def)
qed

lemma comparator_asc:
  "sortDirection c = Asc \<Longrightarrow> (comparator c a b \<le> 0) = (sortKey c a \<le> sortKey c b)"
  by (simp add: comparator_def sortKey_def)

lemma comparator_desc:
  "sortDirection c = Desc \<Longrightarrow> (comparator c a b \<le> 0) = (- sortKey c a \<le> - sortKey c b)"
  by (simp add: comparator_def sortKey_def)

lemma sortRows_asc: "sortDirection c = Asc \<Longrightarrow> sortRows c xs = sort_key (sortKey c) xs"
  unfolding sortRows_def by (rule sortWith_sort_key) (rule comparator_asc)

lemma sortRows_desc:
  "sortDirection c = Desc \<Longrightarrow> sortRows c xs = sort_key (\<lambda>r. - sortKey c r) xs"
  unfolding sortRows_def by (rule sortWith_sort_key) (rule comparator_desc)

lemma sorted_neg_keys:
  "sorted (map (\<lambda>r. - f r) ys) \<Longrightarrow> sorted_wrt (\<lambda>a b. (f b :: rat) \<le> f a) ys"
  by (induction ys) auto

lemma sortRows_stable:
  "filter (\<lambda>r. sortKey c r = k) (sortRows c xs) = filter (\<lambda>r. sortKey c r = k) xs"
proof (cases "sortDirection c")
  case Asc
  then show ?thesis by (simp add: sortRows_asc sort_key_stable)
next
  case Desc
  have "filter (\<lambda>r. - sortKey c r = - k) (sort_key (\<lambda>r. - sortKey c r) xs)
          = filter (\<lambda>r. - sortKey c r = - k) xs"
    by (rule sort_key_stable)
  then show ?thesis using Desc by (simp add: sortRows_desc)
qed

lemma length_sortWith: "length (sortWith cmp xs) = length xs"
proof -
  have "length (insertBy cmp x ys) = Suc (length ys)" for x ys
    by (induction ys) auto
  then show ?thesis
    unfolding sortWith_def by (induction xs) auto
qed

text \<open>
  C5. The sorted sequence is non-decreasing in the chosen field when the direction is
  \<open>asc\<close> and non-increasing when it is \<open>desc\<close>, the field being \<open>visitors\<close> unless \<open>total\<close>
  is selected and the direction \<open>desc\<close> unless \<open>asc\<close> is; the rows of any one key are in
  the order they had before the sort; no row is lost or added.
\<close>

theorem sortRows_sorted_stable:
  "(sortDirection c = Asc \<longrightarrow> sorted_wrt (\<lambda>a b. sortKey c a \<le> sortKey c b) (sortRows c xs))
   \<and> (sortDirection c = Desc \<longrightarrow> sorted_wrt (\<lambda>a b. sortKey c b \<le> sortKey c a) (sortRows c xs))
   \<and> filter (\<lambda>r. sortKey c r = k) (sortRows c xs) = filter (\<lambda>r. sortKey c r = k) xs
   \<and> length (sortRows c xs) = length xs \<and> set (sortRows c xs) = set xs
   \<and> sortDirection c = (case sortOrder c of None \<Rightarrow> Desc | Some d \<Rightarrow> d)
   \<and> sortKey c = (case sortBy c of Some ByTotal \<Rightarrow> (\<lambda>row. valueOf (total_visits row))
                                      | _ \<Rightarrow> (\<lambda>row. valueOf (visitors row)))"
proof (intro conjI impI)
  assume "sortDirection c = Asc"
  then have "sorted (map (sortKey c) (sortRows c xs))"
    by (simp add: sortRows_asc)
  then show "sorted_wrt (\<lambda>a b. sortKey c a \<le> sortKey c b) (sortRows c xs)"
    by (simp add: sorted_map)
next
  assume "sortDirection c = Desc"
  then have "sorted (map (\<lambda>r. - sortKey c r) (sortRows c xs))"
    by (simp add: sortRows_desc)
  then show "sorted_wrt (\<lambda>a b. sortKey c b \<le> sortKey c a) (sortRows c xs)"
    by (rule sorted_neg_keys)
next
  show "filter (\<lambda>r. sortKey c r = k) (sortRows c xs) = filter (\<lambda>r. sortKey c r = k) xs"
    by (rule sortRows_stable)
next
  show "length (sortRows c xs) = length xs"
    by (simp add: sortRows_def length_sortWith)
next
  show "set (sortRows c xs) = set xs"
    by (cases "sortDirection c") (simp_all add: sortRows_asc sortRows_desc)
next
  show "sortDirection c = (case sortOrder c of None \<Rightarrow> Desc | Some d \<Rightarrow> d)"
    by (simp add: sortDirection_def)
next
  show "sortKey c = (case sortBy c of Some ByTotal \<Rightarrow> (\<lambda>row. valueOf (total_visits row))
                                      | _ \<Rightarrow> (\<lambda>row. valueOf (visitors row)))"
    by (auto simp: sortKey_def sortField_def fun_eq_iff split: option.splits SortField.splits)
qed

theorem sortRows_sorted_stable_witness:
  "sortDirection noCriteria = Desc
   \<and> sorted_wrt (\<lambda>a b. sortKey noCriteria b \<le> sortKey noCriteria a) (sortRows noCriteria exampleRows)
   \<and> sortDirection (noCriteria\<lparr>sortOrder := Some Asc\<rparr>) = Asc
   \<and> sorted_wrt (\<lambda>a b. sortKey (noCriteria\<lparr>sortOrder := Some Asc\<rparr>) a
                        \<le> sortKey (noCriteria\<lparr>sortOrder := Some Asc\<rparr>) b)
       (sortRows (noCriteria\<lparr>sortOrder := Some Asc\<rparr>) exampleRows)"
proof -
  have d: "sortDirection noCriteria = Desc"
    by (simp add: sortDirection_def noCriteria_def)
  have a: "sortDirection (noCriteria\<lparr>sortOrder := Some Asc\<rparr>) = Asc"
    by (simp add: sortDirection_def)
  show ?thesis
    using d a sortRows_sorted_stable [of noCriteria exampleRows]
      sortRows_sorted_stable [of "noCriteria\<lparr>sortOrder := Some Asc\<rparr>" exampleRows]
    by blast
qed

subsection \<open>The limit\<close>

lemma length_topRows:
  "length (topRows c rows) = min (length (filterRows c rows)) (nat \<lfloor>maxRows c\<rfloor>)"
  by (simp add: topRows_def sortRows_def length_sortWith)

lemma floor_clamp_small: "l \<le> 1 \<Longrightarrow> nat \<lfloor>max 1 (min l (200::rat))\<rfloor> = 1"
  by (simp add: max_def min_def)

lemma floor_clamp_large: "200 \<le> l \<Longrightarrow> nat \<lfloor>max 1 (min l (200::rat))\<rfloor> = 200"
  by (simp add: max_def min_def)

text \<open>
  C2, as the code has it. The rows rendered are the first \<open>max 1 (min L 200)\<close> of the
  sorted rows, whole rows only, where \<open>L\<close> is the requested limit when one is given that
  is not 0, and 20 otherwise: a limit of \<open>- 5\<close> gives at most 1 row, a limit of 10000 at
  most 200, no limit at most 20, and a limit of 0 is falsy in \<^verbatim>\<open>limit || 20\<close> and gives what
  no limit gives.
\<close>

theorem topRows_limit:
  "length (topRows c rows)
     = min (length (filterRows c rows))
         (case limit c of None \<Rightarrow> 20 | Some l \<Rightarrow> if l = 0 then 20 else nat \<lfloor>max 1 (min l 200)\<rfloor>)
   \<and> (limit c = Some (- 5) \<longrightarrow> length (topRows c rows) \<le> 1)
   \<and> (limit c = Some 10000 \<longrightarrow> length (topRows c rows) \<le> 200)
   \<and> (limit c = None \<longrightarrow> length (topRows c rows) \<le> 20)
   \<and> (limit c = Some 0 \<longrightarrow> topRows c rows = topRows (c\<lparr>limit := None\<rparr>) rows)"
proof (intro conjI impI)
  show "length (topRows c rows)
     = min (length (filterRows c rows))
         (case limit c of None \<Rightarrow> 20 | Some l \<Rightarrow> if l = 0 then 20 else nat \<lfloor>max 1 (min l 200)\<rfloor>)"
    by (simp add: length_topRows maxRows_def split: option.splits)
next
  assume "limit c = Some (- 5)"
  then have "nat \<lfloor>maxRows c\<rfloor> = 1"
    by (simp add: maxRows_def floor_clamp_small)
  then show "length (topRows c rows) \<le> 1"
    by (simp add: length_topRows)
next
  assume "limit c = Some 10000"
  then have "nat \<lfloor>maxRows c\<rfloor> = 200"
    by (simp add: maxRows_def floor_clamp_large)
  then show "length (topRows c rows) \<le> 200"
    by (simp add: length_topRows)
next
  assume "limit c = None"
  then have "nat \<lfloor>maxRows c\<rfloor> = 20"
    by (simp add: maxRows_def)
  then show "length (topRows c rows) \<le> 20"
    by (simp add: length_topRows)
next
  assume zero: "limit c = Some 0"
  have "keepRow (c\<lparr>limit := None\<rparr>) = keepRow c"
    by (simp add: keepRow_def fun_eq_iff)
  moreover have "comparator (c\<lparr>limit := None\<rparr>) = comparator c"
    by (simp add: comparator_def sortField_def sortDirection_def fun_eq_iff)
  moreover have "maxRows (c\<lparr>limit := None\<rparr>) = maxRows c"
    using zero by (simp add: maxRows_def)
  ultimately show "topRows c rows = topRows (c\<lparr>limit := None\<rparr>) rows"
    by (simp add: topRows_def sortRows_def filterRows_def)
qed

theorem topRows_limit_witness:
  "limit (noCriteria\<lparr>limit := Some (- 5)\<rparr>) = Some (- 5)
   \<and> length (topRows (noCriteria\<lparr>limit := Some (- 5)\<rparr>) exampleRows) \<le> 1
   \<and> limit (noCriteria\<lparr>limit := Some 10000\<rparr>) = Some 10000
   \<and> length (topRows (noCriteria\<lparr>limit := Some 10000\<rparr>) exampleRows) \<le> 200
   \<and> limit noCriteria = None
   \<and> length (topRows noCriteria exampleRows) \<le> 20
   \<and> limit (noCriteria\<lparr>limit := Some 0\<rparr>) = Some 0
   \<and> topRows (noCriteria\<lparr>limit := Some 0\<rparr>) exampleRows = topRows (noCriteria\<lparr>limit := Some 0, limit := None\<rparr>) exampleRows"
  using topRows_limit [of "noCriteria\<lparr>limit := Some (- 5)\<rparr>" exampleRows]
    topRows_limit [of "noCriteria\<lparr>limit := Some 10000\<rparr>" exampleRows]
    topRows_limit [of noCriteria exampleRows]
    topRows_limit [of "noCriteria\<lparr>limit := Some 0\<rparr>" exampleRows]
  by (simp add: noCriteria_def)

text \<open>
  C2, as the specification states it, fails for the limit 0: three rows are rendered, not
  at most one.
\<close>

theorem topRows_limit_counterexample:
  "length (topRows (noCriteria\<lparr>limit := Some 0\<rparr>) exampleRows) = 3
   \<and> \<not> length (topRows (noCriteria\<lparr>limit := Some 0\<rparr>) exampleRows) \<le> 1"
  by (simp add: length_topRows maxRows_def filterRows_def keepRow_def truthy_def noCriteria_def exampleRows_def)

subsection \<open>Filtering\<close>

lemma str_startsWith_Nil [simp]: "str_startsWith s []"
  by (cases s) simp_all

lemma str_includes_Nil [simp]: "str_includes s []"
  by (cases s) simp_all

lemma keepRow_iff:
  "keepRow c row \<longleftrightarrow>
     (\<forall>p. pageContains c = Some p \<longrightarrow> str_includes (toLowerCase (item row)) (toLowerCase p))
     \<and> (\<forall>p. startsWith c = Some p \<longrightarrow> str_startsWith (item row) p)
     \<and> (\<forall>m. minVisitors c = Some m \<longrightarrow> m \<le> valueOf (visitors row))
     \<and> (\<forall>m. minTotal c = Some m \<longrightarrow> m \<le> valueOf (total_visits row))"
  by (auto simp: keepRow_def truthy_def textOf_def toLowerCase_def split: option.splits)

lemma keepRow_mono: "addsFilters c c' \<Longrightarrow> keepRow c' row \<Longrightarrow> keepRow c row"
  unfolding keepRow_iff addsFilters_def by auto

lemma filterRows_mono:
  assumes "addsFilters c c'"
  shows "filterRows c' rows = filter (keepRow c') (filterRows c rows)"
proof -
  have "\<And>row. (keepRow c row \<and> keepRow c' row) = keepRow c' row"
    using keepRow_mono [OF assms] by blast
  then show ?thesis
    by (simp add: filterRows_def)
qed

text \<open>
  C8. The filtered rows are the rows that \<open>keepRow\<close> keeps, in their order, and a row is
  kept, and so is among the filtered rows, if and only if it passes every filter that is
  provided: its item in lower case contains the contains-filter in lower case, its item
  starts with the prefix-filter as it is written, its visitors reach \<open>minVisitors\<close> and
  its total reaches \<open>minTotal\<close>. Criteria that add filters keep a part of the rows kept
  before, so never more of them.
\<close>

theorem filterRows_conjunction_monotonic:
  "filterRows c rows = filter (keepRow c) rows
   \<and> (row \<in> set (filterRows c rows) \<longleftrightarrow>
        row \<in> set rows
        \<and> (\<forall>p. pageContains c = Some p \<longrightarrow> str_includes (toLowerCase (item row)) (toLowerCase p))
        \<and> (\<forall>p. startsWith c = Some p \<longrightarrow> str_startsWith (item row) p)
        \<and> (\<forall>m. minVisitors c = Some m \<longrightarrow> m \<le> valueOf (visitors row))
        \<and> (\<forall>m. minTotal c = Some m \<longrightarrow> m \<le> valueOf (total_visits row)))
   \<and> (keepRow c row \<longleftrightarrow>
        (\<forall>p. pageContains c = Some p \<longrightarrow> str_includes (toLowerCase (item row)) (toLowerCase p))
        \<and> (\<forall>p. startsWith c = Some p \<longrightarrow> str_startsWith (item row) p)
        \<and> (\<forall>m. minVisitors c = Some m \<longrightarrow> m \<le> valueOf (visitors row))
        \<and> (\<forall>m. minTotal c = Some m \<longrightarrow> m \<le> valueOf (total_visits row)))
   \<and> (addsFilters c c' \<longrightarrow>
        filterRows c' rows = filter (keepRow c') (filterRows c rows)
        \<and> set (filterRows c' rows) \<subseteq> set (filterRows c rows)
        \<and> length (filterRows c' rows) \<le> length (filterRows c rows))"
proof (intro conjI impI)
  show "filterRows c rows = filter (keepRow c) rows"
    by (simp add: filterRows_def)
next
  show "row \<in> set (filterRows c rows) \<longleftrightarrow>
        row \<in> set rows
        \<and> (\<forall>p. pageContains c = Some p \<longrightarrow> str_includes (toLowerCase (item row)) (toLowerCase p))
        \<and> (\<forall>p. startsWith c = Some p \<longrightarrow> str_startsWith (item row) p)
        \<and> (\<forall>m. minVisitors c = Some m \<longrightarrow> m \<le> valueOf (visitors row))
        \<and> (\<forall>m. minTotal c = Some m \<longrightarrow> m \<le> valueOf (total_visits row))"
    unfolding keepRow_iff [symmetric] by (simp add: filterRows_def)
next
  show "keepRow c row \<longleftrightarrow>
        (\<forall>p. pageContains c = Some p \<longrightarrow> str_includes (toLowerCase (item row)) (toLowerCase p))
        \<and> (\<forall>p. startsWith c = Some p \<longrightarrow> str_startsWith (item row) p)
        \<and> (\<forall>m. minVisitors c = Some m \<longrightarrow> m \<le> valueOf (visitors row))
        \<and> (\<forall>m. minTotal c = Some m \<longrightarrow> m \<le> valueOf (total_visits row))"
    by (rule keepRow_iff)
next
  assume "addsFilters c c'"
  then show sub: "filterRows c' rows = filter (keepRow c') (filterRows c rows)"
    by (rule filterRows_mono)
  then show "set (filterRows c' rows) \<subseteq> set (filterRows c rows)"
    by auto
  from sub show "length (filterRows c' rows) \<le> length (filterRows c rows)"
    by simp
qed

theorem filterRows_conjunction_monotonic_witness:
  "addsFilters noCriteria (noCriteria\<lparr>minVisitors := Some 60\<rparr>)
   \<and> filterRows noCriteria exampleRows = exampleRows
   \<and> filterRows (noCriteria\<lparr>minVisitors := Some 60\<rparr>) exampleRows = [exampleRows ! 1]
   \<and> filterRows (noCriteria\<lparr>pageContains := Some ''ABOUT''\<rparr>) exampleRows = [exampleRows ! 1]
   \<and> filterRows (noCriteria\<lparr>startsWith := Some ''/c''\<rparr>) exampleRows = [exampleRows ! 2]
   \<and> length (filterRows (noCriteria\<lparr>minVisitors := Some 60\<rparr>) exampleRows)
       \<le> length (filterRows noCriteria exampleRows)
   \<and> keepRow (noCriteria\<lparr>minVisitors := Some 60\<rparr>) (exampleRows ! 1)
   \<and> \<not> keepRow (noCriteria\<lparr>minVisitors := Some 60\<rparr>) (exampleRows ! 0)"
proof -
  have a: "addsFilters noCriteria (noCriteria\<lparr>minVisitors := Some 60\<rparr>)"
    by (simp add: addsFilters_def noCriteria_def)
  have k: "keepRow (noCriteria\<lparr>minVisitors := Some 60\<rparr>) (exampleRows ! 1)"
    "\<not> keepRow (noCriteria\<lparr>minVisitors := Some 60\<rparr>) (exampleRows ! 0)"
    "\<not> keepRow (noCriteria\<lparr>minVisitors := Some 60\<rparr>) (exampleRows ! 2)"
    by (simp_all add: keepRow_def truthy_def noCriteria_def exampleRows_def)
  have p: "\<not> keepRow (noCriteria\<lparr>pageContains := Some ''ABOUT''\<rparr>) (exampleRows ! 0)"
    "keepRow (noCriteria\<lparr>pageContains := Some ''ABOUT''\<rparr>) (exampleRows ! 1)"
    "\<not> keepRow (noCriteria\<lparr>pageContains := Some ''ABOUT''\<rparr>) (exampleRows ! 2)"
    by (simp_all add: keepRow_def truthy_def textOf_def toLowerCase_def lowerChar_def
        noCriteria_def exampleRows_def)
  have s: "\<not> keepRow (noCriteria\<lparr>startsWith := Some ''/c''\<rparr>) (exampleRows ! 0)"
    "\<not> keepRow (noCriteria\<lparr>startsWith := Some ''/c''\<rparr>) (exampleRows ! 1)"
    "keepRow (noCriteria\<lparr>startsWith := Some ''/c''\<rparr>) (exampleRows ! 2)"
    by (simp_all add: keepRow_def truthy_def textOf_def noCriteria_def exampleRows_def)
  have n: "keepRow noCriteria r" for r
    by (simp add: keepRow_def truthy_def noCriteria_def)
  have e: "exampleRows = [exampleRows ! 0, exampleRows ! 1, exampleRows ! 2]"
    by (simp add: exampleRows_def)
  note T = filterRows_conjunction_monotonic
  have f0: "filterRows noCriteria exampleRows = exampleRows"
    unfolding T [of noCriteria exampleRows, THEN conjunct1] by (simp add: n)
  have f1: "filterRows (noCriteria\<lparr>minVisitors := Some 60\<rparr>) exampleRows = [exampleRows ! 1]"
    unfolding T [of "noCriteria\<lparr>minVisitors := Some 60\<rparr>" exampleRows, THEN conjunct1]
    by (subst e) (simp add: k del: One_nat_def)
  have f2: "filterRows (noCriteria\<lparr>pageContains := Some ''ABOUT''\<rparr>) exampleRows = [exampleRows ! 1]"
    unfolding T [of "noCriteria\<lparr>pageContains := Some ''ABOUT''\<rparr>" exampleRows, THEN conjunct1]
    by (subst e) (simp add: p del: One_nat_def)
  have f3: "filterRows (noCriteria\<lparr>startsWith := Some ''/c''\<rparr>) exampleRows = [exampleRows ! 2]"
    unfolding T [of "noCriteria\<lparr>startsWith := Some ''/c''\<rparr>" exampleRows, THEN conjunct1]
    by (subst e) (simp add: s del: One_nat_def)
  have l: "length (filterRows (noCriteria\<lparr>minVisitors := Some 60\<rparr>) exampleRows)
       \<le> length (filterRows noCriteria exampleRows)"
    using T [of noCriteria exampleRows _ "noCriteria\<lparr>minVisitors := Some 60\<rparr>",
        THEN conjunct2, THEN conjunct2, THEN conjunct2, THEN mp, OF a] by simp
  show ?thesis
    by (intro conjI a f0 f1 f2 f3 l k(1) k(2))
qed

lemma pipeline_ignores_pageContains:
  "sortField (c\<lparr>pageContains := v\<rparr>) = sortField c"
  "sortDirection (c\<lparr>pageContains := v\<rparr>) = sortDirection c"
  "comparator (c\<lparr>pageContains := v\<rparr>) = comparator c"
  "maxRows (c\<lparr>pageContains := v\<rparr>) = maxRows c"
  by (simp_all add: sortField_def sortDirection_def comparator_def maxRows_def fun_eq_iff)

lemma sortRows_ignores_pageContains: "sortRows (c\<lparr>pageContains := v\<rparr>) = sortRows c"
  by (simp add: sortRows_def fun_eq_iff pipeline_ignores_pageContains)

lemma pipeline_ignores_startsWith:
  "sortField (c\<lparr>startsWith := v\<rparr>) = sortField c"
  "sortDirection (c\<lparr>startsWith := v\<rparr>) = sortDirection c"
  "comparator (c\<lparr>startsWith := v\<rparr>) = comparator c"
  "maxRows (c\<lparr>startsWith := v\<rparr>) = maxRows c"
  by (simp_all add: sortField_def sortDirection_def comparator_def maxRows_def fun_eq_iff)

lemma sortRows_ignores_startsWith: "sortRows (c\<lparr>startsWith := v\<rparr>) = sortRows c"
  by (simp add: sortRows_def fun_eq_iff pipeline_ignores_startsWith)

text \<open>
  C9. An empty string as contains-filter or as prefix-filter is the same as no such
  filter: the same rows are kept, and the tool returns the same text.
\<close>

theorem empty_text_filter_is_absent:
  "filterRows (c\<lparr>pageContains := Some []\<rparr>) rows = filterRows (c\<lparr>pageContains := None\<rparr>) rows
   \<and> filterRows (c\<lparr>startsWith := Some []\<rparr>) rows = filterRows (c\<lparr>startsWith := None\<rparr>) rows
   \<and> getVercelTopPages fmt fs (c\<lparr>pageContains := Some []\<rparr>)
       = getVercelTopPages fmt fs (c\<lparr>pageContains := None\<rparr>)
   \<and> getVercelTopPages fmt fs (c\<lparr>startsWith := Some []\<rparr>)
       = getVercelTopPages fmt fs (c\<lparr>startsWith := None\<rparr>)"
proof -
  have k1: "keepRow (c\<lparr>pageContains := Some []\<rparr>) = keepRow (c\<lparr>pageContains := None\<rparr>)"
    by (intro ext) (simp add: keepRow_def truthy_def)
  have k2: "keepRow (c\<lparr>startsWith := Some []\<rparr>) = keepRow (c\<lparr>startsWith := None\<rparr>)"
    by (intro ext) (simp add: keepRow_def truthy_def)
  have f1: "filterRows (c\<lparr>pageContains := Some []\<rparr>) = filterRows (c\<lparr>pageContains := None\<rparr>)"
    by (intro ext) (simp add: filterRows_def k1)
  have f2: "filterRows (c\<lparr>startsWith := Some []\<rparr>) = filterRows (c\<lparr>startsWith := None\<rparr>)"
    by (intro ext) (simp add: filterRows_def k2)
  have r1: "report fmt (c\<lparr>pageContains := Some []\<rparr>) = report fmt (c\<lparr>pageContains := None\<rparr>)"
    by (intro ext) (simp add: report_def Let_def f1 pipeline_ignores_pageContains sortRows_ignores_pageContains)
  have r2: "report fmt (c\<lparr>startsWith := Some []\<rparr>) = report fmt (c\<lparr>startsWith := None\<rparr>)"
    by (intro ext) (simp add: report_def Let_def f2 pipeline_ignores_startsWith sortRows_ignores_startsWith)
  have t1: "tryBlock fmt fs (c\<lparr>pageContains := Some []\<rparr>) = tryBlock fmt fs (c\<lparr>pageContains := None\<rparr>)"
    by (simp add: tryBlock_def r1 selectFile_def cong: sum.case_cong)
  have t2: "tryBlock fmt fs (c\<lparr>startsWith := Some []\<rparr>) = tryBlock fmt fs (c\<lparr>startsWith := None\<rparr>)"
    by (simp add: tryBlock_def r2 selectFile_def cong: sum.case_cong)
  show ?thesis
    by (simp add: f1 f2 getVercelTopPages_def t1 t2)
qed

subsection \<open>The catalog\<close>

text \<open>
  C10. When the listing has no \<^verbatim>\<open>.csv\<close> file, \<open>resolveFileName\<close> throws the empty-catalog
  error whatever name is requested, and the tool called with a file name returns that
  error's line.
\<close>

theorem resolveFileName_empty_catalog_first:
  "readdir fs = Inr files \<Longrightarrow> filter (\<lambda>f. str_endsWith f ''.csv'') files = [] \<Longrightarrow>
     resolveFileName fs requested = Inl (JsError ''No CSV files found in src/lib/vercel'')
     \<and> (truthy (fileName c) \<and> listReports c \<noteq> Some True \<longrightarrow>
          getVercelTopPages fmt fs c
            = ''Error reading Vercel analytics CSV: No CSV files found in src/lib/vercel'')"
  by (simp add: resolveFileName_def csvFilesOf_def getVercelTopPages_def tryBlock_def
      selectFile_def errorText_def)

theorem resolveFileName_empty_catalog_first_witness:
  "readdir (listingOnly [''notes.txt'']) = Inr [''notes.txt'']
   \<and> filter (\<lambda>f. str_endsWith f ''.csv'') [''notes.txt''] = []
   \<and> resolveFileName (listingOnly [''notes.txt'']) (Some ''../secret.txt'')
       = Inl (JsError ''No CSV files found in src/lib/vercel'')
   \<and> truthy (fileName (noCriteria\<lparr>fileName := Some ''../secret.txt''\<rparr>))
   \<and> listReports (noCriteria\<lparr>fileName := Some ''../secret.txt''\<rparr>) \<noteq> Some True
   \<and> getVercelTopPages plainDigits (listingOnly [''notes.txt''])
         (noCriteria\<lparr>fileName := Some ''../secret.txt''\<rparr>)
       = ''Error reading Vercel analytics CSV: No CSV files found in src/lib/vercel''"
  using resolveFileName_empty_catalog_first
    [of "listingOnly [''notes.txt'']" "[''notes.txt'']" "Some ''../secret.txt''"
        "noCriteria\<lparr>fileName := Some ''../secret.txt''\<rparr>" plainDigits]
  by (simp add: listingOnly_def str_endsWith_def truthy_def noCriteria_def)

subsection \<open>Numeric coercion\<close>

lemma pow2_pos: "0 < pow2 k"
  by (simp add: pow2_def)

lemma roundHalfEven_of_int: "roundHalfEven (of_int z) = z"
  by (simp add: roundHalfEven_def)

lemma roundHalfEven_nonneg: "0 \<le> m \<Longrightarrow> 0 \<le> roundHalfEven m"
  by (auto simp: roundHalfEven_def Let_def)

lemma rounded_nonneg: "0 \<le> of_int (roundHalfEven (\<bar>x\<bar> / pow2 k)) * pow2 k"
proof -
  have "0 \<le> \<bar>x\<bar> / pow2 k"
    using pow2_pos [of k] by simp
  then have "0 \<le> roundHalfEven (\<bar>x\<bar> / pow2 k)"
    by (rule roundHalfEven_nonneg)
  then show ?thesis
    using pow2_pos [of k] by simp
qed

lemma roundNumber_nonneg:
  assumes "0 \<le> x" and "roundNumber x = Finite n"
  shows "0 \<le> valueOf n \<and> n \<noteq> NegZero"
proof (cases "x = 0")
  case True
  with assms(2) show ?thesis
    by (auto simp: roundNumber_def)
next
  case False
  with assms(1) have pos: "0 < x"
    by simp
  define r where "r = of_int (roundHalfEven (\<bar>x\<bar> / pow2 (max (floorLog2 \<bar>x\<bar> - 52) (- 1074))))
    * pow2 (max (floorLog2 \<bar>x\<bar> - 52) (- 1074))"
  have r: "0 \<le> r"
    unfolding r_def by (rule rounded_nonneg)
  have "roundNumber x = (if 2 ^ 1024 \<le> r then PosInfinity else if r = 0 then Finite (Num 0)
     else Finite (Num r))"
    using False pos by (simp add: roundNumber_def Let_def r_def)
  with assms(2) r show ?thesis
    by (auto split: if_splits)
qed

lemma roundNumber_bound:
  assumes "roundNumber x = Finite n"
  shows "\<bar>valueOf n\<bar> < 2 ^ 1024"
proof (cases "x = 0")
  case True
  with assms show ?thesis
    by (auto simp: roundNumber_def)
next
  case False
  define r where "r = of_int (roundHalfEven (\<bar>x\<bar> / pow2 (max (floorLog2 \<bar>x\<bar> - 52) (- 1074))))
    * pow2 (max (floorLog2 \<bar>x\<bar> - 52) (- 1074))"
  have r: "0 \<le> r"
    unfolding r_def by (rule rounded_nonneg)
  have "roundNumber x = (if 2 ^ 1024 \<le> r then (if 0 < x then PosInfinity else NegInfinity)
     else if r = 0 then (if 0 < x then Finite (Num 0) else Finite NegZero)
     else Finite (Num (if 0 < x then r else - r)))"
    using False by (simp add: roundNumber_def Let_def r_def)
  with assms r show ?thesis
    by (auto split: if_splits)
qed

lemma roundNumber_int:
  assumes "0 \<le> N" and "N < 2 ^ 53"
  shows "roundNumber (of_int N) = Finite (Num (of_int N))"
proof (cases "N = 0")
  case True
  then show ?thesis
    by (simp add: roundNumber_def)
next
  case False
  with assms(1) have pos: "0 < N"
    by simp
  define b where "b = bitlen N"
  have bounds: "2 ^ nat (b - 1) \<le> N" "N < 2 ^ nat b"
    using bitlen_bounds [OF pos] by (simp_all add: b_def)
  have b1: "1 \<le> b"
    using pos bitlen_eq_zero_iff [of N] bitlen_nonneg [of N] by (simp add: b_def)
  have "(2::int) ^ nat (b - 1) < 2 ^ 53"
    using bounds(1) assms(2) by linarith
  then have "nat (b - 1) < 53"
    by (rule power_less_imp_less_exp [rotated]) simp
  with b1 have b53: "b \<le> 53"
    by linarith
  define j where "j = nat (53 - b)"
  have fl: "floorLog2 (rat_of_int N) = b - 1"
    using pos by (simp add: floorLog2_def b_def)
  have k: "max (floorLog2 (rat_of_int N) - 52) (- 1074) = b - 53"
    using b1 by (simp add: fl)
  have p: "pow2 (b - 53) = 1 / 2 ^ j"
    using b53 by (auto simp: pow2_def j_def)
  have m: "rat_of_int N / pow2 (b - 53) = of_int (N * 2 ^ j)"
    by (simp add: p)
  have r: "of_int (roundHalfEven (rat_of_int N / pow2 (b - 53))) * pow2 (b - 53) = of_int N"
    unfolding m roundHalfEven_of_int by (simp add: p)
  have "rat_of_int N < 2 ^ 53"
    using assms(2) by (metis of_int_less_iff of_int_numeral of_int_power)
  also have "(2::rat) ^ 53 < 2 ^ 1024"
    by (rule power_strict_increasing) simp_all
  finally have small: "\<not> (2::rat) ^ 1024 \<le> of_int N" and ab: "\<bar>rat_of_int N\<bar> = of_int N"
    using pos by simp_all
  have x: "rat_of_int N \<noteq> 0" "0 < rat_of_int N"
    using pos by simp_all
  show ?thesis
    unfolding roundNumber_def Let_def ab k r using x small by (simp only: if_False if_True)
qed

lemma scaleExp_nonneg: "0 \<le> m \<Longrightarrow> 0 \<le> scaleExp m e"
  by (simp add: scaleExp_def)

lemma digitsValue_nonneg: "0 \<le> base \<Longrightarrow> 0 \<le> digitsValue base ds"
proof -
  assume b: "0 \<le> base"
  have "0 \<le> acc \<Longrightarrow> 0 \<le> foldl (\<lambda>acc c. base * acc + int (digitValue c)) acc ds" for acc
    using b by (induction ds arbitrary: acc) simp_all
  then show ?thesis
    by (simp add: digitsValue_def)
qed

lemma unsignedDecimal_rounded:
  assumes "unsignedDecimal s = Finite n"
  shows "\<exists>x. 0 \<le> x \<and> roundNumber x = Finite n"
proof -
  define ip where "ip = takeWhile isDigit s"
  define r1 where "r1 = dropWhile isDigit s"
  define fp where "fp = takeWhile isDigit (tl r1)"
  define r2 where "r2 = dropWhile isDigit (tl r1)"
  define m1 where "m1 = rat_of_int (digitsValue 10 ip) + of_int (digitsValue 10 fp) / 10 ^ length fp"
  define m2 where "m2 = rat_of_int (digitsValue 10 ip)"
  have m: "0 \<le> m1" "0 \<le> m2"
    using digitsValue_nonneg [of 10 ip] digitsValue_nonneg [of 10 fp] by (simp_all add: m1_def m2_def)
  have "unsignedDecimal s =
     (if s = ''Infinity'' then PosInfinity
      else if r1 \<noteq> [] \<and> hd r1 = CHR ''.'' then
        (if ip = [] \<and> fp = [] then NaN
         else (case exponentPart r2 of None \<Rightarrow> NaN | Some e \<Rightarrow> roundNumber (scaleExp m1 e)))
      else if ip = [] then NaN
      else (case exponentPart r1 of None \<Rightarrow> NaN | Some e \<Rightarrow> roundNumber (scaleExp m2 e)))"
    unfolding unsignedDecimal_def Let_def ip_def r1_def fp_def r2_def m1_def m2_def by (rule refl)
  with assms have "\<exists>e. roundNumber (scaleExp m1 e) = Finite n \<or> roundNumber (scaleExp m2 e) = Finite n"
    by (auto split: if_splits option.splits)
  then show ?thesis
    using m scaleExp_nonneg by blast
qed

lemma unsignedDecimal_nonneg:
  "unsignedDecimal s = Finite n \<Longrightarrow> 0 \<le> valueOf n \<and> n \<noteq> NegZero"
  using unsignedDecimal_rounded roundNumber_nonneg by blast

lemma unsignedDecimal_bound: "unsignedDecimal s = Finite n \<Longrightarrow> \<bar>valueOf n\<bar> < 2 ^ 1024"
  using unsignedDecimal_rounded roundNumber_bound by blast

lemma nonDecimal_rounded:
  assumes "nonDecimal s = Some (Finite n)"
  shows "\<exists>x. 0 \<le> x \<and> roundNumber x = Finite n"
proof -
  from assms obtain b ds where "roundNumber (rat_of_int (digitsValue b ds)) = Finite n" and "0 \<le> b"
    by (auto simp: nonDecimal_def split: list.splits if_splits)
  then show ?thesis
    using digitsValue_nonneg [of b ds] by (intro exI [of _ "rat_of_int (digitsValue b ds)"]) simp
qed

lemma nonDecimal_nonneg:
  "nonDecimal s = Some (Finite n) \<Longrightarrow> 0 \<le> valueOf n \<and> n \<noteq> NegZero"
  using nonDecimal_rounded roundNumber_nonneg by blast

lemma nonDecimal_bound: "nonDecimal s = Some (Finite n) \<Longrightarrow> \<bar>valueOf n\<bar> < 2 ^ 1024"
  using nonDecimal_rounded roundNumber_bound by blast

lemma set_trim: "set (trim s) \<subseteq> set s"
proof -
  have "set (dropWhile isWhiteSpace (rev (dropWhile isWhiteSpace s)))
          \<subseteq> set (rev (dropWhile isWhiteSpace s))"
    by (rule set_dropWhileD [THEN subsetI])
  also have "\<dots> \<subseteq> set s"
    using set_dropWhileD [of _ isWhiteSpace s] by auto
  finally show ?thesis
    by (simp add: trim_def)
qed

lemma jsNumber_nonneg:
  assumes "CHR ''-'' \<notin> set s" and "jsNumber s = Finite n"
  shows "0 \<le> valueOf n \<and> n \<noteq> NegZero"
proof (cases "trim s = []")
  case True
  with assms show ?thesis by (auto simp: jsNumber_def)
next
  case False
  then have "hd (trim s) \<in> set s"
    using set_trim [of s] by auto
  with assms(1) have h: "hd (trim s) \<noteq> CHR ''-''"
    by auto
  show ?thesis
  proof (cases "nonDecimal (trim s)")
    case None
    with assms(2) False h
    have "unsignedDecimal (tl (trim s)) = Finite n \<or> unsignedDecimal (trim s) = Finite n"
      by (auto simp: jsNumber_def Let_def split: if_splits)
    then show ?thesis
      using unsignedDecimal_nonneg by blast
  next
    case (Some v)
    with assms(2) False have "nonDecimal (trim s) = Some (Finite n)"
      by (simp add: jsNumber_def Let_def)
    then show ?thesis
      by (rule nonDecimal_nonneg)
  qed
qed

lemma toNumber_nonneg:
  assumes "CHR ''-'' \<notin> set v"
  shows "0 \<le> valueOf (toNumber v) \<and> toNumber v \<noteq> NegZero"
proof -
  have "set (trim (removeCommas v)) \<subseteq> set v"
    using set_trim [of "removeCommas v"] by (auto simp: removeCommas_def)
  with assms have a: "CHR ''-'' \<notin> set (trim (removeCommas v))"
    by auto
  show ?thesis
  proof (cases "jsNumber (trim (removeCommas v))")
    case (Finite n)
    with jsNumber_nonneg [OF a Finite] show ?thesis
      by (simp add: toNumber_def)
  qed (simp_all add: toNumber_def)
qed

lemma negate_Finite:
  "negate y = Finite n \<Longrightarrow> \<exists>m. y = Finite m \<and> \<bar>valueOf n\<bar> = \<bar>valueOf m\<bar>"
  by (cases y rule: negate.cases) (auto split: if_splits)

lemma jsNumber_bound:
  assumes "jsNumber s = Finite n"
  shows "\<bar>valueOf n\<bar> < 2 ^ 1024"
proof (cases "trim s = []")
  case True
  with assms show ?thesis by (auto simp: jsNumber_def)
next
  case False
  show ?thesis
  proof (cases "nonDecimal (trim s)")
    case None
    with assms False
    have "unsignedDecimal (tl (trim s)) = Finite n \<or> negate (unsignedDecimal (tl (trim s))) = Finite n
        \<or> unsignedDecimal (trim s) = Finite n"
      by (auto simp: jsNumber_def Let_def split: if_splits)
    then show ?thesis
      using unsignedDecimal_bound negate_Finite by metis
  next
    case (Some v)
    with assms False have "nonDecimal (trim s) = Some (Finite n)"
      by (simp add: jsNumber_def Let_def)
    then show ?thesis
      by (rule nonDecimal_bound)
  qed
qed

lemma toNumber_bound: "\<bar>valueOf (toNumber v)\<bar> < 2 ^ 1024"
proof (cases "jsNumber (trim (removeCommas v))")
  case (Finite n)
  then have "toNumber v = n"
    by (simp add: toNumber_def)
  with jsNumber_bound [OF Finite] show ?thesis
    by (simp only:)
qed (simp_all add: toNumber_def)

lemma digit_not_space: "isDigit c \<Longrightarrow> \<not> isWhiteSpace c"
  by (auto simp: isDigit_def isWhiteSpace_def)

lemma dropWhile_all: "list_all P w \<Longrightarrow> dropWhile P (w @ xs) = dropWhile P xs"
  by (induction w) auto

lemma trim_id:
  assumes "s \<noteq> []" "\<not> isWhiteSpace (hd s)" "\<not> isWhiteSpace (last s)"
  shows "trim s = s"
proof -
  have 1: "dropWhile isWhiteSpace s = s"
    using assms(1,2) by (cases s) simp_all
  have 2: "dropWhile isWhiteSpace (rev s) = rev s"
    using assms(1,3) by (cases "rev s") (auto simp: hd_rev)
  show ?thesis
    by (simp add: trim_def 1 2)
qed

lemma trim_padded:
  assumes "list_all isWhiteSpace w1" "list_all isWhiteSpace w2"
    and "s \<noteq> []" "\<not> isWhiteSpace (hd s)" "\<not> isWhiteSpace (last s)"
  shows "trim (w1 @ s @ w2) = s"
proof -
  have 1: "dropWhile isWhiteSpace (w1 @ s @ w2) = s @ w2"
    using assms(1,3,4) by (cases s) (simp_all add: dropWhile_all)
  have "list_all isWhiteSpace (rev w2)"
    using assms(2) by (simp add: list_all_iff)
  then have 2: "dropWhile isWhiteSpace (rev w2 @ rev s) = rev s"
    using assms(3,5) by (cases "rev s") (auto simp add: dropWhile_all hd_rev)
  show ?thesis
    by (simp add: trim_def 1 2)
qed

lemma digits_ends:
  assumes "ds \<noteq> []" "list_all isDigit ds"
  shows "isDigit (hd ds)" "\<not> isWhiteSpace (hd ds)" "\<not> isWhiteSpace (last ds)"
  using assms by (auto simp: list_all_iff digit_not_space)

lemma digit_not_letter:
  "isDigit x \<Longrightarrow> x \<noteq> CHR ''x'' \<and> x \<noteq> CHR ''X'' \<and> x \<noteq> CHR ''o'' \<and> x \<noteq> CHR ''O''
     \<and> x \<noteq> CHR ''b'' \<and> x \<noteq> CHR ''B'' \<and> x \<noteq> CHR ''I'' \<and> x \<noteq> CHR ''+'' \<and> x \<noteq> CHR ''-''"
  by (auto simp: isDigit_def)

lemma unsignedDecimal_digits:
  assumes "ds \<noteq> []" "list_all isDigit ds"
  shows "unsignedDecimal ds = roundNumber (of_int (digitsValue 10 ds))"
proof -
  have i: "ds \<noteq> ''Infinity''"
    using digit_not_letter [OF digits_ends(1) [OF assms]] by auto
  have t: "takeWhile isDigit ds = ds" and d: "dropWhile isDigit ds = []"
    using assms(2) by (simp_all add: list_all_iff)
  show ?thesis
    using assms(1) i by (simp add: unsignedDecimal_def t d exponentPart_def scaleExp_def)
qed

lemma nonDecimal_digits: "list_all isDigit ds \<Longrightarrow> nonDecimal ds = None"
proof (cases ds)
  case Nil
  then show ?thesis by (simp add: nonDecimal_def)
next
  case (Cons z r)
  assume a: "list_all isDigit ds"
  show ?thesis
  proof (cases r)
    case Nil
    with Cons show ?thesis by (simp add: nonDecimal_def)
  next
    case (Cons x r')
    with a \<open>ds = z # r\<close> have "isDigit x" by simp
    from digit_not_letter [OF this] show ?thesis
      using Cons \<open>ds = z # r\<close> by (simp add: nonDecimal_def)
  qed
qed

lemma jsNumber_digits:
  assumes "ds \<noteq> []" "list_all isDigit ds"
  shows "jsNumber ds = roundNumber (of_int (digitsValue 10 ds))"
proof -
  have t: "trim ds = ds"
    by (rule trim_id [OF assms(1) digits_ends(2) [OF assms] digits_ends(3) [OF assms]])
  have h: "hd ds \<noteq> CHR ''+''" "hd ds \<noteq> CHR ''-''"
    using digit_not_letter [OF digits_ends(1) [OF assms]] by auto
  show ?thesis
    using assms h by (simp add: jsNumber_def t nonDecimal_digits unsignedDecimal_digits)
qed

lemma toNumber_digits:
  assumes "list_all isWhiteSpace w1" "list_all isWhiteSpace w2" "ds \<noteq> []" "list_all isDigit ds"
    and "removeCommas v = w1 @ ds @ w2"
  shows "toNumber v = (case roundNumber (of_int (digitsValue 10 ds)) of Finite n \<Rightarrow> n | _ \<Rightarrow> Num 0)"
proof -
  have "trim (w1 @ ds @ w2) = ds"
    using assms(1,2,3) digits_ends(2,3) [OF assms(3,4)] by (rule trim_padded)
  then show ?thesis
    using assms(3,4,5) by (simp add: toNumber_def jsNumber_digits)
qed

lemma toNumber_digits_exact:
  assumes "list_all isWhiteSpace w1" "list_all isWhiteSpace w2" "ds \<noteq> []" "list_all isDigit ds"
    and "removeCommas v = w1 @ ds @ w2" and "digitsValue 10 ds < 2 ^ 53"
  shows "toNumber v = Num (of_int (digitsValue 10 ds))"
  using toNumber_digits [OF assms(1-5)]
    roundNumber_int [OF digitsValue_nonneg [of 10 ds] assms(6)] by simp

lemma toNumber_minus_digits:
  assumes "ds \<noteq> []" "list_all isDigit ds" "0 < digitsValue 10 ds" "digitsValue 10 ds < 2 ^ 53"
  shows "toNumber (CHR ''-'' # ds) = Num (- of_int (digitsValue 10 ds))"
proof -
  have c: "removeCommas (CHR ''-'' # ds) = CHR ''-'' # ds"
    using assms(2) by (auto simp: removeCommas_def comma_def list_all_iff isDigit_def intro!: filter_True)
  have "\<not> isWhiteSpace (CHR ''-'')"
    by (simp add: isWhiteSpace_def)
  then have t: "trim (CHR ''-'' # ds) = CHR ''-'' # ds"
    using digits_ends(3) [OF assms(1,2)] assms(1) by (intro trim_id) simp_all
  have n: "nonDecimal (CHR ''-'' # ds) = None"
    by (simp add: nonDecimal_def split: list.splits)
  have u: "unsignedDecimal ds = Finite (Num (of_int (digitsValue 10 ds)))"
    using unsignedDecimal_digits [OF assms(1,2)] roundNumber_int [of "digitsValue 10 ds"] assms(3,4)
    by simp
  show ?thesis
    using assms(3) by (simp add: toNumber_def c jsNumber_def t n u)
qed

lemma toNumber_not_finite:
  "jsNumber (trim (removeCommas v)) \<in> {NaN, PosInfinity, NegInfinity} \<Longrightarrow> toNumber v = Num 0"
  by (auto simp: toNumber_def)

text \<open>
  C3, as the code has it. \<open>toNumber\<close> returns a finite number for every string: its
  magnitude is below \<open>2 ^ 1024\<close>, and no branch of it throws. The result is at least 0, and
  not the negative zero, for every text without a minus sign. A text that is digits, with
  commas anywhere and white space around, gives the value of the digits rounded to a
  binary64, which is the value itself below \<open>2 ^ 53\<close>. A minus sign before digits of a
  value \<open>n\<close> with \<open>0 < n < 2 ^ 53\<close> gives \<open>- n\<close>, a negative number. A text whose parse is
  not finite gives 0, and so does the empty text.
\<close>

theorem toNumber_total:
  "(CHR ''-'' \<notin> set v \<longrightarrow> 0 \<le> valueOf (toNumber v) \<and> toNumber v \<noteq> NegZero)
   \<and> (list_all isWhiteSpace w1 \<and> list_all isWhiteSpace w2 \<and> ds \<noteq> [] \<and> list_all isDigit ds
        \<and> removeCommas v1 = w1 @ ds @ w2
      \<longrightarrow> toNumber v1 = (case roundNumber (of_int (digitsValue 10 ds)) of
                            Finite n \<Rightarrow> n | _ \<Rightarrow> Num 0)
          \<and> (digitsValue 10 ds < 2 ^ 53 \<longrightarrow> toNumber v1 = Num (of_int (digitsValue 10 ds))))
   \<and> (ds2 \<noteq> [] \<and> list_all isDigit ds2 \<and> 0 < digitsValue 10 ds2 \<and> digitsValue 10 ds2 < 2 ^ 53
      \<longrightarrow> toNumber (CHR ''-'' # ds2) = Num (- of_int (digitsValue 10 ds2)))
   \<and> (jsNumber (trim (removeCommas v3)) \<in> {NaN, PosInfinity, NegInfinity} \<longrightarrow> toNumber v3 = Num 0)
   \<and> \<bar>valueOf (toNumber v4)\<bar> < 2 ^ 1024
   \<and> toNumber [] = Num 0"
proof (intro conjI impI)
  assume "CHR ''-'' \<notin> set v"
  then show "0 \<le> valueOf (toNumber v)" and "toNumber v \<noteq> NegZero"
    using toNumber_nonneg by blast+
next
  assume a: "list_all isWhiteSpace w1 \<and> list_all isWhiteSpace w2 \<and> ds \<noteq> [] \<and> list_all isDigit ds
        \<and> removeCommas v1 = w1 @ ds @ w2"
  then show "toNumber v1 = (case roundNumber (of_int (digitsValue 10 ds)) of
                            Finite n \<Rightarrow> n | _ \<Rightarrow> Num 0)"
    using toNumber_digits by blast
  assume "digitsValue 10 ds < 2 ^ 53"
  with a show "toNumber v1 = Num (of_int (digitsValue 10 ds))"
    using toNumber_digits_exact by blast
next
  assume "ds2 \<noteq> [] \<and> list_all isDigit ds2 \<and> 0 < digitsValue 10 ds2 \<and> digitsValue 10 ds2 < 2 ^ 53"
  then show "toNumber (CHR ''-'' # ds2) = Num (- of_int (digitsValue 10 ds2))"
    using toNumber_minus_digits by blast
next
  assume "jsNumber (trim (removeCommas v3)) \<in> {NaN, PosInfinity, NegInfinity}"
  then show "toNumber v3 = Num 0"
    by (rule toNumber_not_finite)
next
  show "\<bar>valueOf (toNumber v4)\<bar> < 2 ^ 1024"
    by (rule toNumber_bound)
next
  show "toNumber [] = Num 0"
    by (simp add: toNumber_def removeCommas_def trim_def jsNumber_def)
qed

lemma bitlen_54: "bitlen 9007199254740993 = 54"
  by (simp add: compute_bitlen)

lemma floor_half_example: "\<lfloor>(9007199254740993::rat) / 2\<rfloor> = 4503599627370496"
  by (simp add: floor_eq_iff)

lemma roundNumber_above_2_53: "roundNumber 9007199254740993 = Finite (Num 9007199254740992)"
  by (simp add: roundNumber_def floorLog2_def bitlen_54 pow2_def roundHalfEven_def Let_def
      floor_half_example)

lemma digitsValue_examples:
  "digitsValue 10 ''1200'' = 1200" "digitsValue 10 ''5'' = 5"
  "digitsValue 10 ''9007199254740993'' = 9007199254740993"
  by (simp_all add: digitsValue_def digitValue_def isDigit_def)

lemma jsNumber_abc: "jsNumber ''abc'' = NaN"
  by (simp add: jsNumber_def trim_def isWhiteSpace_def nonDecimal_def unsignedDecimal_def isDigit_def)

theorem toNumber_total_witness:
  "CHR ''-'' \<notin> set ''12,5''
   \<and> 0 \<le> valueOf (toNumber ''12,5'') \<and> toNumber ''12,5'' \<noteq> NegZero
   \<and> list_all isWhiteSpace '' '' \<and> list_all isWhiteSpace ''  '' \<and> ''1200'' \<noteq> [] \<and> list_all isDigit ''1200''
   \<and> removeCommas '' 1,200  '' = '' '' @ ''1200'' @ ''  ''
   \<and> digitsValue 10 ''1200'' < 2 ^ 53
   \<and> toNumber '' 1,200  '' = Num 1200
   \<and> ''5'' \<noteq> [] \<and> list_all isDigit ''5'' \<and> 0 < digitsValue 10 ''5'' \<and> digitsValue 10 ''5'' < 2 ^ 53
   \<and> toNumber ''-5'' = Num (- 5)
   \<and> jsNumber (trim (removeCommas ''abc'')) \<in> {NaN, PosInfinity, NegInfinity}
   \<and> toNumber ''abc'' = Num 0
   \<and> toNumber ''9007199254740993'' = Num 9007199254740992"
proof -
  note T1 = toNumber_total [of "''12,5''" "'' ''" "''  ''" "''1200''" "'' 1,200  ''" "''5''" "''abc''" "[]"]
  note T2 = toNumber_total [of "[]" "[]" "[]" "''9007199254740993''" "''9007199254740993''" "''5''" "[]" "[]"]
  have d: "list_all isDigit ''1200''" "list_all isDigit ''5''" "list_all isDigit ''9007199254740993''"
    by (simp_all add: isDigit_def)
  have w: "list_all isWhiteSpace '' ''" "list_all isWhiteSpace ''  ''"
    by (simp_all add: isWhiteSpace_def)
  have c: "removeCommas '' 1,200  '' = '' '' @ ''1200'' @ ''  ''"
    "removeCommas ''9007199254740993'' = [] @ ''9007199254740993'' @ []"
    "trim (removeCommas ''abc'') = ''abc''"
    by (simp_all add: removeCommas_def comma_def trim_def isWhiteSpace_def)
  have m: "CHR ''-'' \<notin> set ''12,5''"
    by simp
  have ne: "''1200'' \<noteq> []" "''5'' \<noteq> []" "''9007199254740993'' \<noteq> []"
    by simp_all
  have lt: "digitsValue 10 ''1200'' < 2 ^ 53" "0 < digitsValue 10 ''5''" "digitsValue 10 ''5'' < 2 ^ 53"
    by (simp_all add: digitsValue_examples)
  have n: "jsNumber (trim (removeCommas ''abc'')) \<in> {NaN, PosInfinity, NegInfinity}"
    by (simp add: c jsNumber_abc)
  have w0: "list_all isWhiteSpace []"
    by simp
  note p1 = T1 [THEN conjunct1, THEN mp, OF m]
  note p2 = T1 [THEN conjunct2, THEN conjunct1, THEN mp,
      OF conjI [OF w(1) conjI [OF w(2) conjI [OF ne(1) conjI [OF d(1) c(1)]]]],
      THEN conjunct2, THEN mp, OF lt(1)]
  note p3 = T1 [THEN conjunct2, THEN conjunct2, THEN conjunct1, THEN mp,
      OF conjI [OF ne(2) conjI [OF d(2) conjI [OF lt(2) lt(3)]]]]
  note p4 = T1 [THEN conjunct2, THEN conjunct2, THEN conjunct2, THEN conjunct1, THEN mp, OF n]
  note p5 = T2 [THEN conjunct2, THEN conjunct1, THEN mp,
      OF conjI [OF w0 conjI [OF w0 conjI [OF ne(3) conjI [OF d(3) c(2)]]]], THEN conjunct1]
  have p5': "toNumber ''9007199254740993'' = Num 9007199254740992"
    unfolding p5 by (simp add: digitsValue_examples roundNumber_above_2_53)
  show ?thesis
    unfolding p2 p3 p4 p5' using p1 m d w c lt n by (simp add: digitsValue_examples)
qed

text \<open>
  C3, as the specification states it, fails for a text with a leading minus sign: the
  coercion of \<^verbatim>\<open>-5\<close> is \<open>- 5\<close>, below 0.
\<close>

theorem toNumber_total_counterexample:
  "toNumber ''-5'' = Num (- 5) \<and> \<not> 0 \<le> valueOf (toNumber ''-5'')"
  using toNumber_minus_digits [of "''5''"]
  by (simp add: digitsValue_examples isDigit_def)

subsection \<open>Default resolution\<close>

lemma sorted_last_Max: "sorted ys \<Longrightarrow> ys \<noteq> [] \<Longrightarrow> last ys = Max (set ys)"
proof (induction ys)
  case Nil
  then show ?case by simp
next
  case (Cons y ys)
  show ?case
  proof (cases "ys = []")
    case True
    then show ?thesis by simp
  next
    case False
    with Cons have "last ys = Max (set ys)" and "\<forall>z\<in>set ys. y \<le> z"
      by auto
    with False show ?thesis
      by (simp add: max_absorb2)
  qed
qed

lemma sort_Nil_iff: "sort xs = [] \<longleftrightarrow> xs = []"
  using set_sort [of "\<lambda>x. x" xs] by (metis set_empty)

lemma last_sort_Max: "xs \<noteq> [] \<Longrightarrow> last (sort xs) = Max (set xs)"
  using sorted_last_Max [of "sort xs"] by (simp add: sort_Nil_iff)

lemma set_csvFilesOf: "set (csvFilesOf files) = {f \<in> set files. str_endsWith f ''.csv''}"
  by (simp add: csvFilesOf_def)

lemma csvFilesOf_Nil: "csvFilesOf files = [] \<longleftrightarrow> filter (\<lambda>f. str_endsWith f ''.csv'') files = []"
  by (simp add: csvFilesOf_def sort_Nil_iff)

lemma selectFile_pages:
  assumes "readdir fs = Inr files" and "\<not> truthy (fileName c)" and "reportType c = None"
  shows "selectFile fs c =
           (let matches = filter (\<lambda>f. str_endsWith f ''.csv'' \<and> str_startsWith f ''Top Pages - '') files
            in if matches = [] then Inl noPagesError else Inr (Max (set matches)))"
proof -
  let ?P = "\<lambda>f. str_startsWith f ''Top Pages - ''"
  let ?matches = "filter (\<lambda>f. str_endsWith f ''.csv'' \<and> ?P f) files"
  have m: "filter ?P (csvFilesOf files) = sort ?matches"
    by (simp add: csvFilesOf_def filter_sort)
  have sel: "selectFile fs c =
      (if filter ?P (csvFilesOf files) = [] then Inl noPagesError
       else Inr (last (filter ?P (csvFilesOf files))))"
    using assms by (simp add: selectFile_def resolveFileNameByType_def noPagesError_def Let_def)
  show ?thesis
  proof (cases "?matches = []")
    case True
    then show ?thesis
      unfolding sel m Let_def by simp
  next
    case False
    then have "sort ?matches \<noteq> []"
      by (simp add: sort_Nil_iff)
    then show ?thesis
      unfolding sel m Let_def using False last_sort_Max [OF False] by simp
  qed
qed

lemma resolveFileName_default:
  assumes "readdir fs = Inr files"
  shows "resolveFileName fs None =
     (let csv = filter (\<lambda>f. str_endsWith f ''.csv'') files in
      if csv = [] then Inl (JsError ''No CSV files found in src/lib/vercel'')
      else Inr (if DEFAULT_FILE \<in> set csv then DEFAULT_FILE else Max (set csv)))"
proof (cases "filter (\<lambda>f. str_endsWith f ''.csv'') files = []")
  case True
  then show ?thesis
    using assms by (simp add: resolveFileName_def csvFilesOf_def)
next
  case False
  then have "sort (filter (\<lambda>f. str_endsWith f ''.csv'') files) \<noteq> []"
    by (simp add: sort_Nil_iff)
  then show ?thesis
    using assms False last_sort_Max [OF False]
    by (simp add: resolveFileName_def csvFilesOf_def Let_def)
qed


lemma DEFAULT_FILE_csv: "str_endsWith DEFAULT_FILE ''.csv''"
  by (simp add: DEFAULT_FILE_def str_endsWith_def)

lemma DEFAULT_FILE_pages: "str_startsWith DEFAULT_FILE ''Top Pages - ''"
  by (simp add: DEFAULT_FILE_def)

lemma DEFAULT_FILE_less: "DEFAULT_FILE < ''Top Pages - Z.csv''"
  by (simp add: DEFAULT_FILE_def)

lemma noCriteria_simps:
  "fileName noCriteria = None" "reportType noCriteria = None" "listReports noCriteria = None"
  by (simp_all add: noCriteria_def)

lemma readdir_listingOnly: "readdir (listingOnly files) = Inr files"
  by (simp add: listingOnly_def)

text \<open>
  C1, as the code has it. Called with no file name and no report type, the tool resolves
  the file as for the report type \<open>pages\<close>: it selects the last, in the order of the code
  units, of the \<^verbatim>\<open>.csv\<close> files of the listing whose name starts with \<^verbatim>\<open>Top Pages - \<close>, and
  throws the no-match error exactly when the listing has no such file. The preference for
  the default file name, the fallback to the last \<^verbatim>\<open>.csv\<close> file and the empty-catalog error
  are what \<open>resolveFileName\<close> does when it is called without a name, which the tool never
  does.
\<close>

theorem default_resolution:
  assumes "readdir fs = Inr files" and "\<not> truthy (fileName c)" and "reportType c = None"
  shows "selectFile fs c =
           (let matches = filter (\<lambda>f. str_endsWith f ''.csv'' \<and> str_startsWith f ''Top Pages - '') files
            in if matches = [] then Inl noPagesError else Inr (Max (set matches)))
         \<and> resolveFileName fs None =
           (let csv = filter (\<lambda>f. str_endsWith f ''.csv'') files in
            if csv = [] then Inl (JsError ''No CSV files found in src/lib/vercel'')
            else Inr (if DEFAULT_FILE \<in> set csv then DEFAULT_FILE else Max (set csv)))"
  using selectFile_pages [OF assms] resolveFileName_default [OF assms(1)] by simp

theorem default_resolution_witness:
  "readdir (listingOnly [''Top Pages - B.csv'', ''Top Referrers - Z.csv'', ''notes.txt''])
     = Inr [''Top Pages - B.csv'', ''Top Referrers - Z.csv'', ''notes.txt'']
   \<and> \<not> truthy (fileName noCriteria) \<and> reportType noCriteria = None
   \<and> selectFile (listingOnly [''Top Pages - B.csv'', ''Top Referrers - Z.csv'', ''notes.txt''])
         noCriteria = Inr ''Top Pages - B.csv''
   \<and> resolveFileName (listingOnly [''Top Pages - B.csv'', ''Top Referrers - Z.csv'', ''notes.txt''])
         None = Inr ''Top Referrers - Z.csv''"
proof -
  have n: "''Top Pages - B.csv'' \<noteq> DEFAULT_FILE" "''Top Referrers - Z.csv'' \<noteq> DEFAULT_FILE"
    by (simp_all add: DEFAULT_FILE_def)
  have m: "max ''Top Pages - B.csv'' ''Top Referrers - Z.csv'' = ''Top Referrers - Z.csv''"
    by (rule max_absorb2) simp
  show ?thesis
    using default_resolution [of "listingOnly [''Top Pages - B.csv'', ''Top Referrers - Z.csv'', ''notes.txt'']"
        "[''Top Pages - B.csv'', ''Top Referrers - Z.csv'', ''notes.txt'']" noCriteria] n m
    by (simp add: readdir_listingOnly noCriteria_simps truthy_def str_endsWith_def)
qed

text \<open>
  C1, as the specification states it, fails: with the default file and a later
  \<^verbatim>\<open>Top Pages\<close> file in the listing the later file is selected, not the default one; and
  with one \<^verbatim>\<open>.csv\<close> file of another report type in the listing the tool throws the no-match
  error, though the catalog is not empty and \<open>resolveFileName\<close> would fall back to that file.
\<close>

theorem default_resolution_counterexample:
  "selectFile (listingOnly [DEFAULT_FILE, ''Top Pages - Z.csv'']) noCriteria = Inr ''Top Pages - Z.csv''
   \<and> ''Top Pages - Z.csv'' \<noteq> DEFAULT_FILE
   \<and> selectFile (listingOnly [''Top Referrers - A.csv'']) noCriteria = Inl noPagesError
   \<and> resolveFileName (listingOnly [''Top Referrers - A.csv'']) None = Inr ''Top Referrers - A.csv''"
proof (intro conjI)
  have "max DEFAULT_FILE ''Top Pages - Z.csv'' = ''Top Pages - Z.csv''"
    using DEFAULT_FILE_less by (rule max_absorb2 [OF less_imp_le])
  then show "selectFile (listingOnly [DEFAULT_FILE, ''Top Pages - Z.csv'']) noCriteria
               = Inr ''Top Pages - Z.csv''"
    using selectFile_pages [of "listingOnly [DEFAULT_FILE, ''Top Pages - Z.csv'']"
        "[DEFAULT_FILE, ''Top Pages - Z.csv'']" noCriteria]
    by (simp add: readdir_listingOnly noCriteria_simps truthy_def DEFAULT_FILE_csv
        DEFAULT_FILE_pages str_endsWith_def)
next
  show "''Top Pages - Z.csv'' \<noteq> DEFAULT_FILE"
    using DEFAULT_FILE_less by auto
next
  show "selectFile (listingOnly [''Top Referrers - A.csv'']) noCriteria = Inl noPagesError"
    using selectFile_pages [of "listingOnly [''Top Referrers - A.csv'']"
        "[''Top Referrers - A.csv'']" noCriteria]
    by (simp add: readdir_listingOnly noCriteria_simps truthy_def)
next
  have "''Top Referrers - A.csv'' \<noteq> DEFAULT_FILE"
    by (simp add: DEFAULT_FILE_def)
  then show "resolveFileName (listingOnly [''Top Referrers - A.csv'']) None = Inr ''Top Referrers - A.csv''"
    using resolveFileName_default [of "listingOnly [''Top Referrers - A.csv'']"
        "[''Top Referrers - A.csv'']"]
    by (simp add: readdir_listingOnly str_endsWith_def)
qed

subsection \<open>The boundary of the tool\<close>

lemma thrownByCode_empty: "thrownByCode (JsError ''No CSV files found in src/lib/vercel'')"
  unfolding thrownByCode_def by (rule disjI1) (rule refl)

lemma thrownByCode_extension: "thrownByCode (JsError ''fileName must be a .csv file'')"
  unfolding thrownByCode_def by (rule disjI2, rule disjI1) (rule refl)

lemma thrownByCode_missing: "thrownByCode (JsError (''CSV file not found: '' @ clean))"
  unfolding thrownByCode_def by (rule disjI2, rule disjI2, rule disjI1, rule exI) (rule refl)

lemma thrownByCode_type:
  "thrownByCode (JsError (''No CSV found for reportType '' @ [squote] @ reportTypeName t @ [squote]))"
  unfolding thrownByCode_def by (rule disjI2, rule disjI2, rule disjI2, rule exI) (rule refl)

lemma resolveFileName_Inl:
  assumes "resolveFileName fs r = Inl e"
  shows "readdir fs = Inl e \<or> thrownByCode e"
proof (cases "readdir fs")
  case (Inl e')
  with assms show ?thesis
    by (simp add: resolveFileName_def)
next
  case (Inr files)
  define clean where "clean = basename (case r of Some x \<Rightarrow> x | None \<Rightarrow> [])"
  define m1 where "m1 = JsError ''No CSV files found in src/lib/vercel''"
  define m2 where "m2 = JsError ''fileName must be a .csv file''"
  define m3 where "m3 = JsError (''CSV file not found: '' @ clean)"
  have "resolveFileName fs r =
      (if csvFilesOf files = [] then Inl m1
       else if r \<noteq> None \<and> r \<noteq> Some [] then
         (if \<not> str_endsWith clean ''.csv'' then Inl m2
          else if clean \<notin> set (csvFilesOf files) then Inl m3 else Inr clean)
       else Inr (if DEFAULT_FILE \<in> set (csvFilesOf files) then DEFAULT_FILE
                 else last (csvFilesOf files)))"
    unfolding resolveFileName_def Inr clean_def m1_def m2_def m3_def Let_def by simp
  with assms have "e = m1 \<or> e = m2 \<or> e = m3"
    by (auto split: if_splits)
  moreover have "thrownByCode m1" "thrownByCode m2" "thrownByCode m3"
    unfolding m1_def m2_def m3_def
    by (rule thrownByCode_empty, rule thrownByCode_extension, rule thrownByCode_missing)
  ultimately show ?thesis
    by blast
qed

lemma resolveFileNameByType_Inl:
  assumes "resolveFileNameByType fs t = Inl e"
  shows "readdir fs = Inl e \<or> thrownByCode e"
proof (cases "readdir fs")
  case (Inl e')
  with assms show ?thesis
    by (simp add: resolveFileNameByType_def)
next
  case (Inr files)
  define m where "m = JsError (''No CSV found for reportType '' @ [squote] @ reportTypeName t @ [squote])"
  define matches where
    "matches = filter (\<lambda>f. str_startsWith f (toReportLabel t @ '' - '')) (csvFilesOf files)"
  have "resolveFileNameByType fs t = (if matches = [] then Inl m else Inr (last matches))"
    unfolding resolveFileNameByType_def Inr m_def matches_def Let_def by simp
  with assms have "e = m"
    by (auto split: if_splits)
  moreover have "thrownByCode m"
    unfolding m_def by (rule thrownByCode_type)
  ultimately show ?thesis
    by blast
qed

lemma selectFile_Inl: "selectFile fs c = Inl e \<Longrightarrow> readdir fs = Inl e \<or> thrownByCode e"
  by (auto simp: selectFile_def split: if_splits dest: resolveFileName_Inl resolveFileNameByType_Inl)

lemma listAvailableReports_Inl: "listAvailableReports fs = Inl e \<Longrightarrow> readdir fs = Inl e"
  by (auto simp: listAvailableReports_def split: sum.splits)

lemma loadRows_Inl: "loadRows fs f = Inl e \<Longrightarrow> readFile fs f = Inl e"
  by (auto simp: loadRows_def split: sum.splits)

lemma tryBlock_Inl:
  assumes "tryBlock fmt fs c = Inl e"
  shows "readdir fs = Inl e \<or> (\<exists>f. selectFile fs c = Inr f \<and> readFile fs f = Inl e) \<or> thrownByCode e"
proof (cases "listReports c = Some True")
  case True
  with assms have "listAvailableReports fs = Inl e"
    by (auto simp: tryBlock_def split: sum.splits if_splits)
  then show ?thesis
    by (auto dest: listAvailableReports_Inl)
next
  case False
  show ?thesis
  proof (cases "selectFile fs c")
    case (Inl e')
    with assms False have "e' = e"
      by (simp add: tryBlock_def)
    with Inl show ?thesis
      by (auto dest: selectFile_Inl)
  next
    case (Inr f)
    with assms False have "loadRows fs f = Inl e"
      by (auto simp: tryBlock_def split: sum.splits)
    with Inr show ?thesis
      by (auto dest: loadRows_Inl)
  qed
qed

lemma readdir_fails: "readdir fs = Inl e \<Longrightarrow> tryBlock fmt fs c = Inl e"
  by (simp add: tryBlock_def listAvailableReports_def selectFile_def resolveFileName_def
      resolveFileNameByType_def)

lemma readFile_fails:
  "listReports c \<noteq> Some True \<Longrightarrow> selectFile fs c = Inr f \<Longrightarrow> readFile fs f = Inl e \<Longrightarrow>
     tryBlock fmt fs c = Inl e"
  by (simp add: tryBlock_def loadRows_def)

text \<open>
  C4. The tool returns a string whatever the criteria and whatever the file-system
  operations do. What the \<^verbatim>\<open>try\<close> block returns is returned as it is. What it throws is
  the rejection of \<^verbatim>\<open>readdir\<close>, the rejection of \<^verbatim>\<open>readFile\<close> on the selected file, or one
  of the four errors of the resolver, and the tool returns the error line for it: the
  prefix and the message of an \<^verbatim>\<open>Error\<close>, or the prefix and \<^verbatim>\<open>Unknown error\<close> for a value
  that is no \<^verbatim>\<open>Error\<close>.
\<close>

theorem getVercelTopPages_never_throws:
  "(tryBlock fmt fs c = Inr s \<longrightarrow> getVercelTopPages fmt fs c = s)
   \<and> (tryBlock fmt fs c = Inl e \<longrightarrow>
        getVercelTopPages fmt fs c = errorLine e
        \<and> (readdir fs = Inl e \<or> (\<exists>f. selectFile fs c = Inr f \<and> readFile fs f = Inl e)
            \<or> thrownByCode e))
   \<and> (readdir fs = Inl e1 \<longrightarrow> getVercelTopPages fmt fs c = errorLine e1)
   \<and> (listReports c \<noteq> Some True \<and> selectFile fs c = Inr f \<and> readFile fs f = Inl e2 \<longrightarrow>
        getVercelTopPages fmt fs c = errorLine e2)
   \<and> errorLine (JsError message) = ''Error reading Vercel analytics CSV: '' @ message
   \<and> errorLine NonError = ''Error reading Vercel analytics CSV: Unknown error''"
proof (intro conjI impI)
  assume "tryBlock fmt fs c = Inr s"
  then show "getVercelTopPages fmt fs c = s"
    by (simp add: getVercelTopPages_def)
next
  assume "tryBlock fmt fs c = Inl e"
  then show "getVercelTopPages fmt fs c = errorLine e"
    by (simp add: getVercelTopPages_def errorLine_def)
next
  assume "tryBlock fmt fs c = Inl e"
  then show "readdir fs = Inl e \<or> (\<exists>f. selectFile fs c = Inr f \<and> readFile fs f = Inl e)
               \<or> thrownByCode e"
    by (rule tryBlock_Inl)
next
  assume "readdir fs = Inl e1"
  then have "tryBlock fmt fs c = Inl e1"
    by (rule readdir_fails)
  then show "getVercelTopPages fmt fs c = errorLine e1"
    by (simp add: getVercelTopPages_def errorLine_def)
next
  assume "listReports c \<noteq> Some True \<and> selectFile fs c = Inr f \<and> readFile fs f = Inl e2"
  then have "tryBlock fmt fs c = Inl e2"
    using readFile_fails by blast
  then show "getVercelTopPages fmt fs c = errorLine e2"
    by (simp add: getVercelTopPages_def errorLine_def)
next
  show "errorLine (JsError message) = ''Error reading Vercel analytics CSV: '' @ message"
    by (simp add: errorLine_def errorText_def)
next
  show "errorLine NonError = ''Error reading Vercel analytics CSV: Unknown error''"
    by (simp add: errorLine_def errorText_def)
qed

lemma unreadable_selectFile:
  "selectFile (listingOnly [''Top Pages - B.csv'']) noCriteria = Inr ''Top Pages - B.csv''"
  using selectFile_pages [of "listingOnly [''Top Pages - B.csv'']" "[''Top Pages - B.csv'']" noCriteria]
  by (simp add: readdir_listingOnly noCriteria_simps truthy_def str_endsWith_def)

theorem getVercelTopPages_never_throws_witness:
  "readdir brokenDirectory = Inl NonError
   \<and> tryBlock plainDigits brokenDirectory noCriteria = Inl NonError
   \<and> getVercelTopPages plainDigits brokenDirectory noCriteria
       = ''Error reading Vercel analytics CSV: Unknown error''
   \<and> listReports noCriteria \<noteq> Some True
   \<and> selectFile (listingOnly [''Top Pages - B.csv'']) noCriteria = Inr ''Top Pages - B.csv''
   \<and> readFile (listingOnly [''Top Pages - B.csv'']) ''Top Pages - B.csv'' = Inl (JsError ''ENOENT'')
   \<and> getVercelTopPages plainDigits (listingOnly [''Top Pages - B.csv'']) noCriteria
       = ''Error reading Vercel analytics CSV: ENOENT''
   \<and> tryBlock plainDigits (listingOnly []) (noCriteria\<lparr>listReports := Some True\<rparr>)
       = Inr ''No CSV reports found in src/lib/vercel.''
   \<and> getVercelTopPages plainDigits (listingOnly []) (noCriteria\<lparr>listReports := Some True\<rparr>)
       = ''No CSV reports found in src/lib/vercel.''"
proof -
  have b: "readdir brokenDirectory = Inl NonError"
    by (simp add: brokenDirectory_def)
  have t: "tryBlock plainDigits brokenDirectory noCriteria = Inl NonError"
    using b by (rule readdir_fails)
  have r: "readFile (listingOnly [''Top Pages - B.csv'']) ''Top Pages - B.csv'' = Inl (JsError ''ENOENT'')"
    by (simp add: listingOnly_def)
  have l: "tryBlock plainDigits (listingOnly []) (noCriteria\<lparr>listReports := Some True\<rparr>)
       = Inr ''No CSV reports found in src/lib/vercel.''"
    by (simp add: tryBlock_def listAvailableReports_def listingOnly_def csvFilesOf_def)
  note T1 = getVercelTopPages_never_throws
    [of plainDigits brokenDirectory noCriteria "[]" NonError NonError "[]" NonError "[]"]
  note T2 = getVercelTopPages_never_throws
    [of plainDigits "listingOnly [''Top Pages - B.csv'']" noCriteria "[]" NonError NonError
        "''Top Pages - B.csv''" "JsError ''ENOENT''" "''ENOENT''"]
  note T3 = getVercelTopPages_never_throws
    [of plainDigits "listingOnly []" "noCriteria\<lparr>listReports := Some True\<rparr>"
        "''No CSV reports found in src/lib/vercel.''" NonError NonError "[]" NonError "[]"]
  have n: "listReports noCriteria \<noteq> Some True"
    by (simp add: noCriteria_simps)
  have 1: "getVercelTopPages plainDigits brokenDirectory noCriteria = errorLine NonError"
    by (rule T1 [THEN conjunct2, THEN conjunct2, THEN conjunct1, THEN mp, OF b])
  have 2: "getVercelTopPages plainDigits (listingOnly [''Top Pages - B.csv'']) noCriteria
       = errorLine (JsError ''ENOENT'')"
    by (rule T2 [THEN conjunct2, THEN conjunct2, THEN conjunct2, THEN conjunct1, THEN mp,
          OF conjI [OF n conjI [OF unreadable_selectFile r]]])
  have 3: "getVercelTopPages plainDigits (listingOnly [])
       (noCriteria\<lparr>listReports := Some True\<rparr>) = ''No CSV reports found in src/lib/vercel.''"
    by (rule T3 [THEN conjunct1, THEN mp, OF l])
  have 4: "errorLine (JsError ''ENOENT'') = ''Error reading Vercel analytics CSV: '' @ ''ENOENT''"
    by (rule T2 [THEN conjunct2, THEN conjunct2, THEN conjunct2, THEN conjunct2, THEN conjunct1])
  have 5: "errorLine NonError = ''Error reading Vercel analytics CSV: Unknown error''"
    by (rule T1 [THEN conjunct2, THEN conjunct2, THEN conjunct2, THEN conjunct2, THEN conjunct2])
  show ?thesis
    unfolding 1 2 3 4 5 using b t n unreadable_selectFile r l by simp
qed

subsection \<open>The scenario\<close>

lemma scenario_numbers:
  "toNumber ''100'' = Num 100" "toNumber ''150'' = Num 150" "toNumber ''50'' = Num 50"
  "toNumber ''1,200'' = Num 1200"
  using toNumber_digits_exact [of "[]" "[]" "''100''" "''100''"]
    toNumber_digits_exact [of "[]" "[]" "''150''" "''150''"]
    toNumber_digits_exact [of "[]" "[]" "''50''" "''50''"]
    toNumber_digits_exact [of "[]" "[]" "''1200''" "''1,200''"]
  by (simp_all add: removeCommas_def comma_def isDigit_def digitsValue_def digitValue_def)

lemma scenario_sums:
  "roundNumber 100 = Finite (Num 100)" "roundNumber 150 = Finite (Num 150)"
  "roundNumber 1350 = Finite (Num 1350)"
  using roundNumber_int [of 100] roundNumber_int [of 150] roundNumber_int [of 1350]
  by simp_all

lemma scenario_lines:
  "splitLines scenarioContent [] = [''item,visitors,total'', ''/home,100,150'', aboutLine]"
  by (simp add: scenarioContent_def aboutLine_def newline_def dquote_def)

lemma scenario_row1:
  "rowOfLine ''/home,100,150''
     = Some \<lparr> item = ''/home'', visitors = Num 100, total_visits = Num 150 \<rparr>"
  by (simp add: rowOfLine_def parseCsvLine_def fieldAt_def orZero_def dquote_def comma_def scenario_numbers)

lemma scenario_row2:
  "rowOfLine aboutLine = Some \<lparr> item = ''/about'', visitors = Num 50, total_visits = Num 1200 \<rparr>"
  using scenario_numbers
  by (simp add: rowOfLine_def parseCsvLine_def fieldAt_def orZero_def aboutLine_def dquote_def
      comma_def)

lemma scenario_rowsOfContent: "rowsOfContent scenarioContent = scenarioRows"
proof -
  have "trim aboutLine = aboutLine"
    by (simp add: aboutLine_def trim_def isWhiteSpace_def dquote_def)
  then have t: "map trim (splitLines scenarioContent [])
             = [''item,visitors,total'', ''/home,100,150'', aboutLine]"
    unfolding scenario_lines by (simp add: trim_def isWhiteSpace_def)
  have "aboutLine \<noteq> []"
    by (simp add: aboutLine_def)
  then show ?thesis
    unfolding rowsOfContent_def t
    by (simp add: List.map_filter_simps scenario_row1 scenario_row2 scenarioRows_def)
qed

lemma scenario_selectFile:
  "readdir fs = Inr [scenarioFile] \<Longrightarrow> selectFile fs noCriteria = Inr scenarioFile"
  using selectFile_pages [of fs "[scenarioFile]" noCriteria]
  by (simp add: noCriteria_simps truthy_def scenarioFile_def str_endsWith_def)

lemma scenario_label: "inferReportLabel scenarioFile = ''Top Pages''"
  by (simp add: inferReportLabel_def REPORT_LABELS_def scenarioFile_def)

lemma scenario_period: "extractDateRange scenarioFile = ''Jan 1, 26''"
  by (simp add: extractDateRange_def stripCsvSuffix_def stripLabelPrefix_def scenarioFile_def)

lemma scenario_filtered: "filterRows noCriteria scenarioRows = scenarioRows"
  by (simp add: filterRows_def keepRow_def truthy_def noCriteria_def)

lemma scenario_sorted: "sortRows noCriteria scenarioRows = scenarioRows"
  by (simp add: sortRows_def sortWith_def comparator_def sortField_def sortDirection_def
      noCriteria_def scenarioRows_def)

lemma scenario_maxRows: "nat \<lfloor>maxRows noCriteria\<rfloor> = 20"
  by (simp add: maxRows_def noCriteria_def)

lemma scenario_take: "take 20 scenarioRows = scenarioRows"
  by (simp add: scenarioRows_def)

lemma scenario_top: "topRows noCriteria scenarioRows = scenarioRows"
  by (simp add: topRows_def scenario_filtered scenario_sorted scenario_maxRows scenario_take)

lemma scenario_totals:
  "foldl (\<lambda>sum row. plusNumber sum (visitors row)) (Finite (Num 0)) scenarioRows
     = Finite (Num 150)"
  "foldl (\<lambda>sum row. plusNumber sum (total_visits row)) (Finite (Num 0)) scenarioRows
     = Finite (Num 1350)"
  by (simp_all add: scenarioRows_def scenario_sums)

lemma showNat_small:
  "showNat 1 = ''1''" "showNat 2 = ''2''" "showNat (Suc 0) = ''1''" "showNat (Suc (Suc 0)) = ''2''"
  by (simp_all add: showNat.simps digitChar_def)

lemma scenario_ranked:
  "rankedLines fmt scenarioRows =
     [''1. /home | Visitors: '' @ fmt (Finite (Num 100)) @ '' | Total: '' @ fmt (Finite (Num 150)),
      ''2. /about | Visitors: '' @ fmt (Finite (Num 50)) @ '' | Total: '' @ fmt (Finite (Num 1200))]"
proof -
  have "zip [0 ..< length scenarioRows] scenarioRows = [(0, scenarioRows ! 0), (1, scenarioRows ! 1)]"
    by (simp add: scenarioRows_def upt_rec)
  then show ?thesis
    by (simp add: rankedLines_def showNat_small scenarioRows_def)
qed

lemma scenario_report: "report fmt noCriteria scenarioFile scenarioRows = scenarioReport fmt"
proof -
  have len: "length scenarioRows = 2" and ne: "scenarioRows \<noteq> []"
    by (simp_all add: scenarioRows_def)
  have s: "includeSummary noCriteria = None" "sortFieldName (sortField noCriteria) = ''visitors''"
    "sortOrderName (sortDirection noCriteria) = ''desc''"
    by (simp_all add: noCriteria_def sortFieldName_def sortField_def sortOrderName_def sortDirection_def)
  show ?thesis
    unfolding report_def Let_def scenario_filtered scenario_sorted scenario_maxRows scenario_take
      scenario_label scenario_period scenario_totals scenario_ranked len s showNat_small
    using ne by (simp add: scenarioReport_def scenarioFile_def)
qed

text \<open>
  C7. With the scenario's file alone in the directory, the call with no criteria returns
  the report with \<^verbatim>\<open>/home\<close> (visitors 100) before \<^verbatim>\<open>/about\<close> (visitors 50), 2 rows scanned
  and matched, 150 visitors and 1350 visits in total, the quoted \<^verbatim>\<open>1,200\<close> being read as
  1200; the numbers are printed by the format of the host, whatever it is.
\<close>

theorem scenario_no_criteria:
  assumes "readdir fs = Inr [scenarioFile]" and "readFile fs scenarioFile = Inr scenarioContent"
  shows "getVercelTopPages fmt fs noCriteria = scenarioReport fmt
         \<and> selectFile fs noCriteria = Inr scenarioFile
         \<and> loadRows fs scenarioFile = Inr scenarioRows
         \<and> topRows noCriteria scenarioRows = scenarioRows
         \<and> length (filterRows noCriteria scenarioRows) = 2
         \<and> foldl (\<lambda>sum row. plusNumber sum (visitors row)) (Finite (Num 0))
               (filterRows noCriteria scenarioRows) = Finite (Num 150)
         \<and> foldl (\<lambda>sum row. plusNumber sum (total_visits row)) (Finite (Num 0))
               (filterRows noCriteria scenarioRows) = Finite (Num 1350)"
proof -
  have sel: "selectFile fs noCriteria = Inr scenarioFile"
    using assms(1) by (rule scenario_selectFile)
  have load: "loadRows fs scenarioFile = Inr scenarioRows"
    using assms(2) by (simp add: loadRows_def scenario_rowsOfContent)
  have "tryBlock fmt fs noCriteria = Inr (scenarioReport fmt)"
    by (simp add: tryBlock_def noCriteria_simps sel load scenario_report)
  then have "getVercelTopPages fmt fs noCriteria = scenarioReport fmt"
    by (simp add: getVercelTopPages_def)
  moreover have "length scenarioRows = 2"
    by (simp add: scenarioRows_def)
  ultimately show ?thesis
    by (simp add: sel load scenario_top scenario_filtered scenario_totals)
qed

theorem scenario_no_criteria_witness:
  "readdir scenarioFs = Inr [scenarioFile] \<and> readFile scenarioFs scenarioFile = Inr scenarioContent
   \<and> getVercelTopPages plainDigits scenarioFs noCriteria = scenarioReport plainDigits
   \<and> loadRows scenarioFs scenarioFile = Inr scenarioRows"
  using scenario_no_criteria [of scenarioFs plainDigits]
  by (simp add: scenarioFs_def)

end
